theory Spec2Isabelle
  imports Complex_Main
begin

section \<open>Bounding-box pixel splitting (pyFAI/ext/splitBBox.pyx)\<close>

text \<open>
  The two histogram functions of \<^verbatim>\<open>splitBBox.pyx\<close>, \<^verbatim>\<open>histoBBox1d\<close> and
  \<^verbatim>\<open>histoBBox2d\<close>, are embedded as HOL functions over exact real arithmetic.

  \<^item> C \<^verbatim>\<open>float\<close> and \<^verbatim>\<open>double\<close> values are real numbers: rounding, infinities and
    NaN are not represented. A division whose divisor is zero has no real value; it is the
    error \<open>ZeroDivisionError\<close> of the model (what Cython raises without \<^verbatim>\<open>cdivision\<close>, and
    an IEEE infinity or NaN with it).
  \<^item> Every \<^verbatim>\<open>assert\<close> and every exception is a value \<open>Inl e\<close> of the result type.
  \<^item> A \<^verbatim>\<open>for idx in range(n)\<close> loop runs its body once for each member of the range, in
    order, as Python defines it: assigning to the loop variable inside the body (the inner
    loop of \<^verbatim>\<open>histoBBox1d\<close> reuses \<^verbatim>\<open>idx\<close>) does not change which members are visited.
  \<^item> \<^verbatim>\<open>calc_upper_bound\<close> of \<^verbatim>\<open>regrid_common.pxi\<close> is a parameter \<open>ub\<close> of both functions,
    and the constant \<^verbatim>\<open>pi\<close> of that file a parameter \<open>pi_c\<close> of \<^verbatim>\<open>histoBBox2d\<close>.
\<close>

subsection \<open>Errors and checked primitives\<close>

datatype error = AssertionError | TypeError | AttributeError | IndexError | ZeroDivisionError

definition ebind :: "error + 'a \<Rightarrow> ('a \<Rightarrow> error + 'b) \<Rightarrow> error + 'b" where
  "ebind m f = (case m of Inl e \<Rightarrow> Inl e | Inr x \<Rightarrow> f x)"

definition fdiv :: "real \<Rightarrow> real \<Rightarrow> error + real" where
  "fdiv a b = (if b = 0 then Inl ZeroDivisionError else Inr (a / b))"

text \<open>A loop whose body may raise: the first error ends it.\<close>

fun for_each :: "'i list \<Rightarrow> ('i \<Rightarrow> 's \<Rightarrow> error + 's) \<Rightarrow> 's \<Rightarrow> error + 's" where
  "for_each [] body s = Inr s"
| "for_each (i # rest) body s =
     (case body i s of Inl e \<Rightarrow> Inl e | Inr s' \<Rightarrow> for_each rest body s')"

text \<open>The C cast \<^verbatim>\<open><ssize_t> x\<close> of a floating-point value truncates towards zero.\<close>

definition to_ssize_t :: "real \<Rightarrow> int" where
  "to_ssize_t x = (if 0 \<le> x then \<lfloor>x\<rfloor> else \<lceil>x\<rceil>)"

text \<open>Python's \<^verbatim>\<open>min\<close> and \<^verbatim>\<open>max\<close> of a non-empty sequence.\<close>

definition py_min :: "real list \<Rightarrow> real" where
  "py_min xs = fold min (tl xs) (hd xs)"

definition py_max :: "real list \<Rightarrow> real" where
  "py_max xs = fold max (tl xs) (hd xs)"

text \<open>\<^verbatim>\<open>numpy.linspace(start, stop, num)\<close>.\<close>

definition linspace :: "real \<Rightarrow> real \<Rightarrow> nat \<Rightarrow> real list" where
  "linspace start stop num =
     (if num = 1 then [start]
      else map (\<lambda>i. start + real i * ((stop - start) / real (num - 1))) [0..<num])"

subsection \<open>The helpers of regrid\_common.pxi\<close>

text \<open>
  Modelled from the spec: \<^verbatim>\<open>get_bin_number\<close> lives in \<^verbatim>\<open>regrid_common.pxi\<close>, which is
  included by the source file but is not part of it. The spec gives it as
  \<^verbatim>\<open>fbin = (value - resolvedMin) / binWidth\<close>.
\<close>

definition get_bin_number :: "real \<Rightarrow> real \<Rightarrow> real \<Rightarrow> error + real" where
  "get_bin_number x0 pos0_min delta = fdiv (x0 - pos0_min) delta"

text \<open>
  Modelled from the spec: \<^verbatim>\<open>calc_upper_bound\<close> lives in \<^verbatim>\<open>regrid_common.pxi\<close> too. The spec
  says that the upper limit is nudged outward by an epsilon relative to the true maximum;
  the epsilon taken here is the single-precision machine epsilon \<open>2\<^sup>-\<^sup>2\<^sup>3\<close>. The
  histogram functions below take the rounding as a parameter, and this instance is used
  where a concrete one is needed.
\<close>

definition calc_upper_bound :: "real \<Rightarrow> real" where
  "calc_upper_bound maximum_value =
     (if maximum_value > 0 then maximum_value * (1 + 1 / 2 ^ 23)
      else maximum_value * (1 - 1 / 2 ^ 23))"

text \<open>
  The constant \<^verbatim>\<open>pi\<close> that \<^verbatim>\<open>histoBBox2d\<close> reads is declared in \<^verbatim>\<open>regrid_common.pxi\<close> as
  well; it is a parameter of the model. Where a concrete value is needed, it is the double
  nearest to \<open>\<pi>\<close>.
\<close>

definition M_PI :: real where
  "M_PI = 884279719003555 / 2 ^ 48"

subsection \<open>Arguments and results\<close>

text \<open>
  The keyword arguments the two functions share; \<open>None\<close> is Python's \<^verbatim>\<open>None\<close>. Arrays are
  the flattened (\<^verbatim>\<open>ravel\<close>) inputs; \<open>mask\<close> holds the values after the conversion to
  \<^verbatim>\<open>int8\<close>.
\<close>

record hargs =
  weights :: "real list"
  pos0 :: "real list"
  delta_pos0 :: "real list"
  pos1 :: "real list option"
  delta_pos1 :: "real list option"
  pos0Range :: "real list option"
  pos1Range :: "real list option"
  dummy :: "real option"
  delta_dummy :: "real option"
  mask :: "int list option"
  dark :: "real list option"
  flat :: "real list option"
  solidangle :: "real list option"
  polarization :: "real list option"
  empty :: "real option"
  normalization_factor :: real

text \<open>\<^verbatim>\<open>histoBBox1d\<close> declares \<^verbatim>\<open>size_t bins\<close>: the bin count is a natural number.\<close>

record args1d = hargs +
  bins :: nat

text \<open>The returned tuple \<^verbatim>\<open>(edges, outMerge, outData, outCount)\<close>.\<close>

record result1d =
  r_edges :: "real list"
  r_outMerge :: "real list"
  r_outData :: "real list"
  r_outCount :: "real list"

subsection \<open>Steps shared by both functions\<close>

text \<open>\<^verbatim>\<open>(check_mask) and (cmask[idx])\<close>\<close>

definition masked :: "'a hargs_scheme \<Rightarrow> nat \<Rightarrow> bool" where
  "masked a idx = (case mask a of None \<Rightarrow> False | Some cmask \<Rightarrow> cmask ! idx \<noteq> 0)"

text \<open>The size assertions of the optional arrays: \<^verbatim>\<open>assert x.size == size\<close> when \<^verbatim>\<open>x\<close> is given.\<close>

definition size_ok :: "'b list option \<Rightarrow> nat \<Rightarrow> bool" where
  "size_ok x npix = (case x of None \<Rightarrow> True | Some xs \<Rightarrow> length xs = npix)"

text \<open>
  The four corrections, in the order of the source: dark is subtracted, then the value is
  divided by flat, polarization and solid angle, each when supplied.
\<close>

definition corrections :: "'a hargs_scheme \<Rightarrow> nat \<Rightarrow> real \<Rightarrow> error + real" where
  "corrections a idx data =
     (let data = (case dark a of None \<Rightarrow> data | Some cdark \<Rightarrow> data - cdark ! idx) in
      ebind (case flat a of None \<Rightarrow> Inr data | Some cflat \<Rightarrow> fdiv data (cflat ! idx)) (\<lambda>data.
      ebind (case polarization a of None \<Rightarrow> Inr data
             | Some cpolarization \<Rightarrow> fdiv data (cpolarization ! idx)) (\<lambda>data.
      (case solidangle a of None \<Rightarrow> Inr data
       | Some csolidangle \<Rightarrow> fdiv data (csolidangle ! idx)))))"

text \<open>
  \<^verbatim>\<open>pos0Range is not None and len(pos0Range) > 1\<close>: the user range, when it counts.
\<close>

definition user_range :: "real list option \<Rightarrow> (real \<times> real) option" where
  "user_range r =
     (case r of None \<Rightarrow> None
      | Some xs \<Rightarrow> if length xs > 1 then Some (py_min xs, py_max xs) else None)"

text \<open>The merge loop's body for one bin.\<close>

definition merge_bin :: "real \<Rightarrow> real \<Rightarrow> real \<Rightarrow> real \<Rightarrow> real \<Rightarrow> error + real" where
  "merge_bin epsilon cdummy nf sumData sumCount =
     (if sumCount > epsilon then ebind (fdiv sumData sumCount) (\<lambda>q. fdiv q nf)
      else Inr cdummy)"

text \<open>\<^verbatim>\<open>epsilon = 1e-10\<close>\<close>

definition epsilon :: real where
  "epsilon = 1 / 10 ^ 10"

subsection \<open>histoBBox1d\<close>

text \<open>
  Lines 123--134: the dummy value, as \<open>(check_dummy, cdummy, ddummy)\<close>. Without a dummy,
  \<^verbatim>\<open>cdummy = empty or 0.0\<close>: Python's \<^verbatim>\<open>or\<close> yields \<open>0.0\<close> when \<^verbatim>\<open>empty\<close> is \<^verbatim>\<open>None\<close> or zero.
\<close>

definition dummy1d :: "'a hargs_scheme \<Rightarrow> bool \<times> real \<times> real" where
  "dummy1d a =
     (case dummy a of
        Some d \<Rightarrow> (case delta_dummy a of Some dd \<Rightarrow> (True, d, dd) | None \<Rightarrow> (True, d, 0))
      | None \<Rightarrow> (False, (case empty a of None \<Rightarrow> 0 | Some e \<Rightarrow> if e = 0 then 0 else e), 0))"

text \<open>
  Lines 157--167: the body of the first loop, on the state
  \<open>(pos0_min, pos0_max, cpos0_lower, cpos0_upper)\<close>.
\<close>

definition scan1d_step ::
  "'a hargs_scheme \<Rightarrow> nat \<Rightarrow> real \<times> real \<times> real list \<times> real list
     \<Rightarrow> real \<times> real \<times> real list \<times> real list" where
  "scan1d_step a idx s =
     (case s of (pos0_min, pos0_max, cpos0_lower, cpos0_upper) \<Rightarrow>
        if masked a idx then s
        else
          let min0 = pos0 a ! idx - delta_pos0 a ! idx;
              max0 = pos0 a ! idx + delta_pos0 a ! idx;
              cpos0_upper = cpos0_upper[idx := max0];
              cpos0_lower = cpos0_lower[idx := min0];
              pos0_max = (if max0 > pos0_max then max0 else pos0_max);
              pos0_min = (if min0 < pos0_min then min0 else pos0_min)
          in (pos0_min, pos0_max, cpos0_lower, cpos0_upper))"

text \<open>Lines 152--167: the first loop, started from the centre of pixel 0.\<close>

definition scan1d :: "'a hargs_scheme \<Rightarrow> real \<times> real \<times> real list \<times> real list" where
  "scan1d a =
     (let npix = length (weights a) in
      fold (scan1d_step a) [0..<npix]
        (pos0 a ! 0, pos0 a ! 0, replicate npix 0, replicate npix 0))"

text \<open>
  Lines 169--176: the resolved range \<open>(pos0_min, pos0_maxin, pos0_max)\<close> from the scanned
  \<open>pos0_min\<close> and \<open>pos0_max\<close>.
\<close>

definition range1d :: "(real \<Rightarrow> real) \<Rightarrow> 'a hargs_scheme \<Rightarrow> real \<Rightarrow> real \<Rightarrow> real \<times> real \<times> real" where
  "range1d ub a pos0_min pos0_max =
     (let (pos0_min, pos0_maxin) =
            (case user_range (pos0Range a) of
               Some (lo, hi) \<Rightarrow> (lo, hi)
             | None \<Rightarrow> (pos0_min, pos0_max));
          pos0_min = (if pos0_min < 0 then 0 else pos0_min)
      in (pos0_min, pos0_maxin, ub pos0_maxin))"

text \<open>\<^verbatim>\<open>xs[i] += v\<close> on a one-dimensional accumulator, \<open>i\<close> an \<^verbatim>\<open>ssize_t\<close>.\<close>

definition add_at :: "real list \<Rightarrow> int \<Rightarrow> real \<Rightarrow> real list" where
  "add_at xs i v = xs[nat i := xs ! nat i + v]"

text \<open>
  Lines 202--203, the test on axis 1, as \<open>(check_pos1, cpos1, dpos1, pos1_min, pos1_max)\<close>.
\<close>

type_synonym pos1_check = "bool \<times> real list \<times> real list \<times> real \<times> real"

definition outside_pos1 :: "pos1_check \<Rightarrow> nat \<Rightarrow> bool" where
  "outside_pos1 p1 idx =
     (case p1 of (check_pos1, cpos1, dpos1, pos1_min, pos1_max) \<Rightarrow>
        check_pos1 \<and> (cpos1 ! idx + dpos1 ! idx < pos1_min \<or> cpos1 ! idx - dpos1 ! idx > pos1_max))"

text \<open>Lines 209--216: the first and the last bin a footprint touches.\<close>

definition clip_bin0_max :: "nat \<Rightarrow> real \<Rightarrow> int" where
  "clip_bin0_max nbins fbin0_max =
     (if fbin0_max \<ge> real nbins then int nbins - 1 else to_ssize_t fbin0_max)"

definition clip_bin0_min :: "real \<Rightarrow> int" where
  "clip_bin0_min fbin0_min = (if fbin0_min < 0 then 0 else to_ssize_t fbin0_min)"

text \<open>
  Lines 227--248: the corrected value \<open>data\<close> of a pixel is spread over the bins
  \<open>bin0_min\<close> to \<open>bin0_max\<close>, on the state \<open>(outData, outCount)\<close>.
\<close>

definition split1d ::
  "real list \<times> real list \<Rightarrow> real \<Rightarrow> real \<Rightarrow> real \<Rightarrow> int \<Rightarrow> int
     \<Rightarrow> error + real list \<times> real list" where
  "split1d st data fbin0_min fbin0_max bin0_min bin0_max =
     (case st of (outData, outCount) \<Rightarrow>
        if bin0_min = bin0_max then
          (let outCount = add_at outCount bin0_min 1;
               outData = add_at outData bin0_min data
           in Inr (outData, outCount))
        else
          ebind (fdiv 1 (fbin0_max - fbin0_min)) (\<lambda>deltaA.
            let deltaL = real_of_int (bin0_min + 1) - fbin0_min;
                deltaR = fbin0_max - real_of_int bin0_max;
                outCount = add_at outCount bin0_min (deltaA * deltaL);
                outData = add_at outData bin0_min (data * deltaA * deltaL);
                outCount = add_at outCount bin0_max (deltaA * deltaR);
                outData = add_at outData bin0_max (data * deltaA * deltaR)
            in
            if bin0_min + 1 < bin0_max then
              Inr (fold (\<lambda>i (outData, outCount).
                          (let outCount = add_at outCount i deltaA;
                               outData = add_at outData i (data * deltaA)
                           in (outData, outCount)))
                     [bin0_min + 1..bin0_max - 1] (outData, outCount))
            else Inr (outData, outCount)))"

text \<open>
  Lines 192--248: the body of the accumulation loop for pixel \<open>idx\<close>, on the state
  \<open>(outData, outCount)\<close>.
\<close>

definition accumulate1d_step ::
  "args1d \<Rightarrow> bool \<times> real \<times> real \<Rightarrow> real list \<Rightarrow> real list \<Rightarrow> pos1_check \<Rightarrow> real \<Rightarrow> real
     \<Rightarrow> nat \<Rightarrow> real list \<times> real list \<Rightarrow> error + real list \<times> real list" where
  "accumulate1d_step a dm cpos0_lower cpos0_upper p1 pos0_min delta idx st =
     (case dm of (check_dummy, cdummy, ddummy) \<Rightarrow>
        if masked a idx then Inr st
        else
          let data = weights a ! idx in
          if check_dummy \<and> \<bar>data - cdummy\<bar> \<le> ddummy then Inr st
          else
            let min0 = cpos0_lower ! idx;
                max0 = cpos0_upper ! idx
            in
            if outside_pos1 p1 idx then Inr st
            else
              ebind (get_bin_number min0 pos0_min delta) (\<lambda>fbin0_min.
              ebind (get_bin_number max0 pos0_min delta) (\<lambda>fbin0_max.
                if fbin0_max < 0 \<or> fbin0_min \<ge> real (bins a) then Inr st
                else
                  let bin0_max = clip_bin0_max (bins a) fbin0_max;
                      bin0_min = clip_bin0_min fbin0_min
                  in
                  ebind (corrections a idx data) (\<lambda>data.
                    split1d st data fbin0_min fbin0_max bin0_min bin0_max))))"

text \<open>Lines 250--254: the merge loop.\<close>

definition merge1d :: "real \<Rightarrow> real \<Rightarrow> real list \<Rightarrow> real list \<Rightarrow> nat \<Rightarrow> error + real list" where
  "merge1d cdummy nf sumData sumCount n =
     for_each [0..<n]
       (\<lambda>idx merged. ebind (merge_bin epsilon cdummy nf (sumData ! idx) (sumCount ! idx))
                        (\<lambda>v. Inr (merged[idx := v])))
       (replicate n 0)"

text \<open>
  Lines 178--186: the axis-1 range of \<^verbatim>\<open>histoBBox1d\<close>. \<^verbatim>\<open>pos1.size\<close> on \<^verbatim>\<open>None\<close> raises
  \<^verbatim>\<open>AttributeError\<close>.
\<close>

definition pos1_check1d :: "(real \<Rightarrow> real) \<Rightarrow> 'a hargs_scheme \<Rightarrow> nat \<Rightarrow> error + pos1_check" where
  "pos1_check1d ub a npix =
     (case user_range (pos1Range a) of
        None \<Rightarrow> Inr (False, [], [], 0, 0)
      | Some (lo, hi) \<Rightarrow>
          (case pos1 a of
             None \<Rightarrow> Inl AttributeError
           | Some cpos1 \<Rightarrow>
               if length cpos1 \<noteq> npix then Inl AssertionError
               else
                 (case delta_pos1 a of
                    None \<Rightarrow> Inl AttributeError
                  | Some dpos1 \<Rightarrow>
                      if length dpos1 \<noteq> npix then Inl AssertionError
                      else Inr (True, cpos1, dpos1, lo, ub hi))))"

text \<open>
  The whole of \<^verbatim>\<open>histoBBox1d\<close>. The read of \<^verbatim>\<open>cpos0[0]\<close> from an empty array (bounds
  checking is switched off) is the error \<open>IndexError\<close> of the model.
\<close>

definition histoBBox1d :: "(real \<Rightarrow> real) \<Rightarrow> args1d \<Rightarrow> error + result1d" where
  "histoBBox1d ub a =
     (let npix = length (weights a) in
      if length (pos0 a) \<noteq> npix then Inl AssertionError
      else if length (delta_pos0 a) \<noteq> npix then Inl AssertionError
      else if \<not> bins a > 1 then Inl AssertionError
      else if \<not> size_ok (mask a) npix then Inl AssertionError
      else
        let dm = dummy1d a in
        if \<not> size_ok (dark a) npix then Inl AssertionError
        else if \<not> size_ok (flat a) npix then Inl AssertionError
        else if \<not> size_ok (polarization a) npix then Inl AssertionError
        else if \<not> size_ok (solidangle a) npix then Inl AssertionError
        else if npix = 0 then Inl IndexError
        else
          (case scan1d a of (pos0_min, pos0_max, cpos0_lower, cpos0_upper) \<Rightarrow>
           case range1d ub a pos0_min pos0_max of (pos0_min, pos0_maxin, pos0_max) \<Rightarrow>
             ebind (pos1_check1d ub a npix) (\<lambda>p1.
             ebind (fdiv (pos0_max - pos0_min) (real (bins a))) (\<lambda>delta.
             ebind (for_each [0..<npix]
                      (accumulate1d_step a dm cpos0_lower cpos0_upper p1 pos0_min delta)
                      (replicate (bins a) 0, replicate (bins a) 0)) (\<lambda>(sumData, sumCount).
             ebind (merge1d (fst (snd dm)) (normalization_factor a) sumData sumCount (bins a))
               (\<lambda>merged.
                 Inr \<lparr>r_edges = linspace (pos0_min + 0.5 * delta) (pos0_maxin - 0.5 * delta) (bins a),
                      r_outMerge = merged, r_outData = sumData, r_outCount = sumCount\<rparr>))))))"

subsection \<open>histoBBox2d\<close>

text \<open>
  \<^verbatim>\<open>bins=(100, 36)\<close> is a pair, or one number for both axes (the \<^verbatim>\<open>TypeError\<close> branch of
  lines 318--321); the counts are \<^verbatim>\<open>ssize_t\<close>.
\<close>

datatype bins_arg = BinsPair int int | BinsScalar int

record args2d = hargs +
  bins2 :: bins_arg
  allow_pos0_neg :: bool
  chiDiscAtPi :: bool

text \<open>
  The returned tuple \<^verbatim>\<open>(outMerge.T, edges0, edges1, outData.T, outCount.T)\<close>.
\<close>

record result2d =
  r2_outMerge :: "real list list"
  r2_edges0 :: "real list"
  r2_edges1 :: "real list"
  r2_outData :: "real list list"
  r2_outCount :: "real list list"

text \<open>Lines 318--325: the two bin counts, each raised to 1 when it is not positive.\<close>

definition resolve_bins :: "bins_arg \<Rightarrow> int \<times> int" where
  "resolve_bins b =
     (let (bins0, bins1) = (case b of BinsPair b0 b1 \<Rightarrow> (b0, b1) | BinsScalar n \<Rightarrow> (n, n));
          bins0 = (if bins0 \<le> 0 then 1 else bins0);
          bins1 = (if bins1 \<le> 0 then 1 else bins1)
      in (bins0, bins1))"

text \<open>
  Lines 360--367: the dummy value, as \<open>(check_dummy, cdummy, ddummy)\<close>. Only the first branch
  sets \<^verbatim>\<open>check_dummy\<close>; \<^verbatim>\<open>ddummy\<close> is read only under \<^verbatim>\<open>check_dummy\<close>, so its value in the
  other branches (the source leaves it unset) does not matter, and is 0 here.
  \<^verbatim>\<open>float(empty)\<close> raises \<^verbatim>\<open>TypeError\<close> on \<^verbatim>\<open>None\<close>.
\<close>

definition dummy2d :: "'a hargs_scheme \<Rightarrow> error + bool \<times> real \<times> real" where
  "dummy2d a =
     (case dummy a of
        Some d \<Rightarrow> (case delta_dummy a of Some dd \<Rightarrow> Inr (True, d, dd) | None \<Rightarrow> Inr (False, d, 0))
      | None \<Rightarrow> (case empty a of None \<Rightarrow> Inl TypeError | Some e \<Rightarrow> Inr (False, e, 0)))"

text \<open>
  \<^verbatim>\<open>numpy.zeros((bins0, bins1))\<close>, and the transposition \<^verbatim>\<open>.T\<close> of such an array: entry
  \<open>[j][i]\<close> of the result is entry \<open>[i][j]\<close> of the array.
\<close>

definition zeros2 :: "nat \<Rightarrow> nat \<Rightarrow> real list list" where
  "zeros2 m n = replicate m (replicate n 0)"

definition numpy_T :: "nat \<Rightarrow> nat \<Rightarrow> real list list \<Rightarrow> real list list" where
  "numpy_T m n arr = map (\<lambda>j. map (\<lambda>i. arr ! i ! j) [0..<m]) [0..<n]"

text \<open>
  The decorators that switch off bounds checking are commented out above
  \<^verbatim>\<open>histoBBox2d\<close>, so an index is checked, and a negative one counts from the end.
\<close>

definition wrap_index :: "int \<Rightarrow> nat \<Rightarrow> nat option" where
  "wrap_index i n =
     (if 0 \<le> i \<and> i < int n then Some (nat i)
      else if - int n \<le> i \<and> i < 0 then Some (nat (i + int n))
      else None)"

text \<open>\<^verbatim>\<open>arr[i, j] += v\<close>\<close>

definition add_at2 :: "real list list \<Rightarrow> int \<Rightarrow> int \<Rightarrow> real \<Rightarrow> error + real list list" where
  "add_at2 arr i j v =
     (case wrap_index i (length arr) of
        None \<Rightarrow> Inl IndexError
      | Some i' \<Rightarrow>
          (case wrap_index j (length (arr ! i')) of
             None \<Rightarrow> Inl IndexError
           | Some j' \<Rightarrow> Inr (arr[i' := (arr ! i')[j' := arr ! i' ! j' + v]])))"

text \<open>
  The pair of statements \<^verbatim>\<open>outCount[i, j] += c\<close>; \<^verbatim>\<open>outData[i, j] += d\<close> on the state
  \<open>(outData, outCount)\<close>.
\<close>

definition deposit ::
  "real list list \<times> real list list \<Rightarrow> int \<Rightarrow> int \<Rightarrow> real \<Rightarrow> real
     \<Rightarrow> error + real list list \<times> real list list" where
  "deposit st i j c d =
     (case st of (outData, outCount) \<Rightarrow>
        ebind (add_at2 outCount i j c) (\<lambda>outCount.
        ebind (add_at2 outData i j d) (\<lambda>outData. Inr (outData, outCount))))"

text \<open>
  Lines 393--420: the body of the first loop, on the state
  \<open>((pos0_min, pos0_max, pos1_min, pos1_max), (cpos0_lower, cpos0_upper, cpos1_lower,
  cpos1_upper))\<close>. Lines 403--404 test and set \<^verbatim>\<open>lower0\<close>, a name that nothing else in the
  function reads or writes: they change none of the variables below and have no
  counterpart here.
\<close>

type_synonym scan2d_state =
  "(real \<times> real \<times> real \<times> real) \<times> (real list \<times> real list \<times> real list \<times> real list)"

definition scan2d_step ::
  "real \<Rightarrow> args2d \<Rightarrow> real list \<Rightarrow> real list \<Rightarrow> nat \<Rightarrow> scan2d_state \<Rightarrow> scan2d_state" where
  "scan2d_step pi_c a cpos1 dpos1 idx s =
     (case s of ((pos0_min, pos0_max, pos1_min, pos1_max),
                 (cpos0_lower, cpos0_upper, cpos1_lower, cpos1_upper)) \<Rightarrow>
        if masked a idx then s
        else
          let c0 = pos0 a ! idx;
              d0 = delta_pos0 a ! idx;
              min0 = c0 - d0;
              max0 = c0 + d0;
              c1 = cpos1 ! idx;
              d1 = dpos1 ! idx;
              min1 = c1 - d1;
              max1 = c1 + d1;
              chi = (if chiDiscAtPi a then 1 else 0);
              max1 = (if max1 > (2 - chi) * pi_c then (2 - chi) * pi_c else max1);
              min1 = (if min1 < (- chi) * pi_c then (- chi) * pi_c else min1);
              cpos0_upper = cpos0_upper[idx := max0];
              cpos0_lower = cpos0_lower[idx := min0];
              cpos1_upper = cpos1_upper[idx := max1];
              cpos1_lower = cpos1_lower[idx := min1];
              pos0_max = (if max0 > pos0_max then max0 else pos0_max);
              pos0_min = (if min0 < pos0_min then min0 else pos0_min);
              pos1_max = (if max1 > pos1_max then max1 else pos1_max);
              pos1_min = (if min1 < pos1_min then min1 else pos1_min)
          in ((pos0_min, pos0_max, pos1_min, pos1_max),
              (cpos0_lower, cpos0_upper, cpos1_lower, cpos1_upper)))"

text \<open>
  Lines 386--420: the first loop, started from the centre of pixel 0 on both axes. The four
  bound arrays come from \<^verbatim>\<open>numpy.empty\<close>; an entry is read only after the loop has written
  it, and the arrays start as zeros here.
\<close>

definition scan2d :: "real \<Rightarrow> args2d \<Rightarrow> real list \<Rightarrow> real list \<Rightarrow> scan2d_state" where
  "scan2d pi_c a cpos1 dpos1 =
     (let npix = length (weights a) in
      fold (scan2d_step pi_c a cpos1 dpos1) [0..<npix]
        ((pos0 a ! 0, pos0 a ! 0, cpos1 ! 0, cpos1 ! 0),
         (replicate npix 0, replicate npix 0, replicate npix 0, replicate npix 0)))"

text \<open>
  Lines 422--438: the resolved ranges
  \<open>(pos0_min, pos0_maxin, pos0_max, pos1_min, pos1_maxin, pos1_max)\<close> from the scanned ones.
\<close>

definition range2d ::
  "(real \<Rightarrow> real) \<Rightarrow> args2d \<Rightarrow> real \<times> real \<times> real \<times> real
     \<Rightarrow> real \<times> real \<times> real \<times> real \<times> real \<times> real" where
  "range2d ub a scanned =
     (case scanned of (pos0_min, pos0_max, pos1_min, pos1_max) \<Rightarrow>
        let (pos0_min, pos0_maxin) =
              (case user_range (pos0Range a) of
                 Some (lo, hi) \<Rightarrow> (lo, hi)
               | None \<Rightarrow> (pos0_min, pos0_max));
            (pos1_min, pos1_maxin) =
              (case user_range (pos1Range a) of
                 Some (lo, hi) \<Rightarrow> (lo, hi)
               | None \<Rightarrow> (pos1_min, pos1_max));
            pos0_min = (if \<not> allow_pos0_neg a \<and> pos0_min < 0 then 0 else pos0_min)
        in (pos0_min, pos0_maxin, ub pos0_maxin, pos1_min, pos1_maxin, ub pos1_maxin))"

text \<open>
  Lines 483--560: the corrected value \<open>data\<close> of a pixel is spread over the bins its clipped
  footprint touches, on the state \<open>(outData, outCount)\<close>.
\<close>

definition split2d ::
  "real list list \<times> real list list \<Rightarrow> real \<Rightarrow> real \<Rightarrow> real \<Rightarrow> real \<Rightarrow> real
     \<Rightarrow> error + real list list \<times> real list list" where
  "split2d st data fbin0_min fbin0_max fbin1_min fbin1_max =
     (let bin0_min = to_ssize_t fbin0_min;
          bin0_max = to_ssize_t fbin0_max;
          bin1_min = to_ssize_t fbin1_min;
          bin1_max = to_ssize_t fbin1_max
      in
      if bin0_min = bin0_max then
        if bin1_min = bin1_max then
          deposit st bin0_min bin1_min 1 data
        else
          (let deltaD = real_of_int (bin1_min + 1) - fbin1_min;
               deltaU = fbin1_max - real_of_int bin1_max;
               area_pixel = fbin1_max - fbin1_min
           in
           ebind (fdiv 1 area_pixel) (\<lambda>one_over_area.
           ebind (deposit st bin0_min bin1_min
                    (one_over_area * deltaD) (data * one_over_area * deltaD)) (\<lambda>st.
           ebind (deposit st bin0_min bin1_max
                    (one_over_area * deltaU) (data * one_over_area * deltaU)) (\<lambda>st.
           for_each [bin1_min + 1..bin1_max - 1]
             (\<lambda>j st. deposit st bin0_min j one_over_area (data * one_over_area))
             st))))
      else
        if bin1_min = bin1_max then
          (let area_pixel = fbin0_max - fbin0_min in
           ebind (fdiv 1 area_pixel) (\<lambda>one_over_area.
             let deltaL = real_of_int (bin0_min + 1) - fbin0_min in
             ebind (deposit st bin0_min bin1_min
                      (one_over_area * deltaL) (data * one_over_area * deltaL)) (\<lambda>st.
               let deltaR = fbin0_max - real_of_int bin0_max in
               ebind (deposit st bin0_max bin1_min
                        (one_over_area * deltaR) (data * one_over_area * deltaR)) (\<lambda>st.
               for_each [bin0_min + 1..bin0_max - 1]
                 (\<lambda>i st. deposit st i bin1_min one_over_area (data * one_over_area))
                 st))))
        else
          (let area_pixel = (fbin0_max - fbin0_min) * (fbin1_max - fbin1_min) in
           ebind (fdiv 1 area_pixel) (\<lambda>one_over_area.
             let deltaL = real_of_int (bin0_min + 1) - fbin0_min;
                 deltaR = fbin0_max - real_of_int bin0_max;
                 deltaD = real_of_int (bin1_min + 1) - fbin1_min;
                 deltaU = fbin1_max - real_of_int bin1_max
             in
             ebind (deposit st bin0_min bin1_min
                      (one_over_area * deltaL * deltaD)
                      (data * one_over_area * deltaL * deltaD)) (\<lambda>st.
             ebind (deposit st bin0_min bin1_max
                      (one_over_area * deltaL * deltaU)
                      (data * one_over_area * deltaL * deltaU)) (\<lambda>st.
             ebind (deposit st bin0_max bin1_min
                      (one_over_area * deltaR * deltaD)
                      (data * one_over_area * deltaR * deltaD)) (\<lambda>st.
             ebind (deposit st bin0_max bin1_max
                      (one_over_area * deltaR * deltaU)
                      (data * one_over_area * deltaR * deltaU)) (\<lambda>st.
             ebind (for_each [bin0_min + 1..bin0_max - 1]
                      (\<lambda>i st.
                         ebind (deposit st i bin1_min
                                  (one_over_area * deltaD)
                                  (data * one_over_area * deltaD)) (\<lambda>st.
                         ebind (for_each [bin1_min + 1..bin1_max - 1]
                                  (\<lambda>j st. deposit st i j
                                              one_over_area (data * one_over_area))
                                  st) (\<lambda>st.
                         deposit st i bin1_max
                           (one_over_area * deltaU)
                           (data * one_over_area * deltaU))))
                      st) (\<lambda>st.
             for_each [bin1_min + 1..bin1_max - 1]
               (\<lambda>j st.
                  ebind (deposit st bin0_min j
                           (one_over_area * deltaL)
                           (data * one_over_area * deltaL)) (\<lambda>st.
                  deposit st bin0_max j
                    (one_over_area * deltaR)
                    (data * one_over_area * deltaR)))
               st))))))))"

text \<open>
  Lines 445--560: the body of the accumulation loop for pixel \<open>idx\<close>, on the state
  \<open>(outData, outCount)\<close>; \<open>rng\<close> is \<open>(pos0_min, pos0_maxin, pos1_min, pos1_maxin)\<close>.
\<close>

definition accumulate2d_step ::
  "args2d \<Rightarrow> bool \<times> real \<times> real \<Rightarrow> real list \<Rightarrow> real list \<Rightarrow> real list \<Rightarrow> real list
     \<Rightarrow> real \<times> real \<times> real \<times> real \<Rightarrow> real \<Rightarrow> real
     \<Rightarrow> nat \<Rightarrow> real list list \<times> real list list \<Rightarrow> error + real list list \<times> real list list" where
  "accumulate2d_step a dm cpos0_lower cpos0_upper cpos1 dpos1 rng delta0 delta1 idx st =
     (case dm of (check_dummy, cdummy, ddummy) \<Rightarrow>
      case rng of (pos0_min, pos0_maxin, pos1_min, pos1_maxin) \<Rightarrow>
        if masked a idx then Inr st
        else
          let data = weights a ! idx in
          if check_dummy \<and> \<bar>data - cdummy\<bar> \<le> ddummy then Inr st
          else
            ebind (corrections a idx data) (\<lambda>data.
              let min0 = cpos0_lower ! idx;
                  max0 = cpos0_upper ! idx;
                  min1 = cpos1 ! idx - dpos1 ! idx;
                  max1 = cpos1 ! idx + dpos1 ! idx
              in
              if max0 < pos0_min \<or> max1 < pos1_min \<or> min0 > pos0_maxin \<or> min1 > pos1_maxin
              then Inr st
              else
                let min0 = (if min0 < pos0_min then pos0_min else min0);
                    min1 = (if min1 < pos1_min then pos1_min else min1);
                    max0 = (if max0 > pos0_maxin then pos0_maxin else max0);
                    max1 = (if max1 > pos1_maxin then pos1_maxin else max1)
                in
                ebind (get_bin_number min0 pos0_min delta0) (\<lambda>fbin0_min.
                ebind (get_bin_number max0 pos0_min delta0) (\<lambda>fbin0_max.
                ebind (get_bin_number min1 pos1_min delta1) (\<lambda>fbin1_min.
                ebind (get_bin_number max1 pos1_min delta1) (\<lambda>fbin1_max.
                  split2d st data fbin0_min fbin0_max fbin1_min fbin1_max))))))"

text \<open>Lines 562--567: the merge loops.\<close>

definition merge2d ::
  "real \<Rightarrow> real \<Rightarrow> real list list \<Rightarrow> real list list \<Rightarrow> nat \<Rightarrow> nat \<Rightarrow> error + real list list" where
  "merge2d cdummy nf sumData sumCount m n =
     for_each [0..<m]
       (\<lambda>i merged.
          for_each [0..<n]
            (\<lambda>j merged.
               ebind (merge_bin epsilon cdummy nf (sumData ! i ! j) (sumCount ! i ! j))
                 (\<lambda>v. Inr (merged[i := (merged ! i)[j := v]])))
            merged)
       (zeros2 m n)"

text \<open>
  The whole of \<^verbatim>\<open>histoBBox2d\<close>. \<^verbatim>\<open>pos1\<close> and \<^verbatim>\<open>delta_pos1\<close> are declared \<^verbatim>\<open>not None\<close>:
  \<^verbatim>\<open>None\<close> is a \<^verbatim>\<open>TypeError\<close> at the call.
\<close>

definition histoBBox2d :: "(real \<Rightarrow> real) \<Rightarrow> real \<Rightarrow> args2d \<Rightarrow> error + result2d" where
  "histoBBox2d ub pi_c a =
     (case pos1 a of None \<Rightarrow> Inl TypeError | Some cpos1 \<Rightarrow>
     (case delta_pos1 a of None \<Rightarrow> Inl TypeError | Some dpos1 \<Rightarrow>
        let npix = length (weights a) in
        if length (pos0 a) \<noteq> npix then Inl AssertionError
        else if length cpos1 \<noteq> npix then Inl AssertionError
        else if length (delta_pos0 a) \<noteq> npix then Inl AssertionError
        else if length dpos1 \<noteq> npix then Inl AssertionError
        else
          (case resolve_bins (bins2 a) of (bins0, bins1) \<Rightarrow>
             if \<not> size_ok (mask a) npix then Inl AssertionError
             else
               ebind (dummy2d a) (\<lambda>dm.
                 if \<not> size_ok (dark a) npix then Inl AssertionError
                 else if \<not> size_ok (flat a) npix then Inl AssertionError
                 else if \<not> size_ok (polarization a) npix then Inl AssertionError
                 else if \<not> size_ok (solidangle a) npix then Inl AssertionError
                 else if npix = 0 then Inl IndexError
                 else
                   (case scan2d pi_c a cpos1 dpos1 of
                      (scanned, (cpos0_lower, cpos0_upper, cpos1_lower, cpos1_upper)) \<Rightarrow>
                    case range2d ub a scanned of
                      (pos0_min, pos0_maxin, pos0_max, pos1_min, pos1_maxin, pos1_max) \<Rightarrow>
                      ebind (fdiv (pos0_max - pos0_min) (real_of_int bins0)) (\<lambda>delta0.
                      ebind (fdiv (pos1_max - pos1_min) (real_of_int bins1)) (\<lambda>delta1.
                      ebind (for_each [0..<npix]
                               (accumulate2d_step a dm cpos0_lower cpos0_upper cpos1 dpos1
                                  (pos0_min, pos0_maxin, pos1_min, pos1_maxin) delta0 delta1)
                               (zeros2 (nat bins0) (nat bins1), zeros2 (nat bins0) (nat bins1)))
                        (\<lambda>(sumData, sumCount).
                      ebind (merge2d (fst (snd dm)) (normalization_factor a) sumData sumCount
                               (nat bins0) (nat bins1)) (\<lambda>merged.
                        Inr \<lparr>r2_outMerge = numpy_T (nat bins0) (nat bins1) merged,
                             r2_edges0 = linspace (pos0_min + 0.5 * delta0)
                                           (pos0_maxin - 0.5 * delta0) (nat bins0),
                             r2_edges1 = linspace (pos1_min + 0.5 * delta1)
                                           (pos1_maxin - 0.5 * delta1) (nat bins1),
                             r2_outData = numpy_T (nat bins0) (nat bins1) sumData,
                             r2_outCount = numpy_T (nat bins0) (nat bins1) sumCount\<rparr>)))))))))"

section \<open>Scenarios and specification-side definitions\<close>

text \<open>
  The value an empty bin receives, in the words of the spec: the configured dummy value, or
  the empty value, or 0.0, when no dummy was configured.
\<close>

definition fill_value :: "'a hargs_scheme \<Rightarrow> real" where
  "fill_value a =
     (case dummy a of Some d \<Rightarrow> d | None \<Rightarrow> (case empty a of Some e \<Rightarrow> e | None \<Rightarrow> 0))"

text \<open>
  A call of \<^verbatim>\<open>histoBBox1d\<close>, and one of \<^verbatim>\<open>histoBBox2d\<close>, that pass the required arguments
  and the bin count and leave every keyword argument at its default.
\<close>

definition call1d :: "real list \<Rightarrow> real list \<Rightarrow> real list \<Rightarrow> nat \<Rightarrow> args1d" where
  "call1d w p0 d0 n =
     \<lparr>weights = w, pos0 = p0, delta_pos0 = d0, pos1 = None, delta_pos1 = None,
      pos0Range = None, pos1Range = None, dummy = None, delta_dummy = None, mask = None,
      dark = None, flat = None, solidangle = None, polarization = None, empty = None,
      normalization_factor = 1, bins = n\<rparr>"

definition call2d ::
  "real list \<Rightarrow> real list \<Rightarrow> real list \<Rightarrow> real list \<Rightarrow> real list \<Rightarrow> bins_arg \<Rightarrow> args2d" where
  "call2d w p0 d0 p1 d1 b =
     \<lparr>weights = w, pos0 = p0, delta_pos0 = d0, pos1 = Some p1, delta_pos1 = Some d1,
      pos0Range = None, pos1Range = None, dummy = None, delta_dummy = None, mask = None,
      dark = None, flat = None, solidangle = None, polarization = None, empty = Some 0,
      normalization_factor = 1, bins2 = b, allow_pos0_neg = False, chiDiscAtPi = True\<rparr>"

text \<open>
  The split scenario of the spec: one pixel of weight 100 at 1.0 with half-width 0.6, two
  bins over the range [0, 2].
\<close>

definition split_scenario :: args1d where
  "split_scenario = (call1d [100] [1] [6 / 10] 2)\<lparr>pos0Range := Some [0, 2]\<rparr>"

text \<open>
  Two pixels on a grid of 2 bins on axis 0 and 3 bins on axis 1, over [0, 2] and [0, 3], with
  the dummy value -1: the first pixel spreads over four bins, the second over two, and the
  last bin of axis 1 stays empty.
\<close>

definition grid_scenario :: args2d where
  "grid_scenario =
     (call2d [100, 7] [1, 3 / 2] [6 / 10, 1 / 10] [1, 1] [3 / 10, 1 / 10] (BinsPair 2 3))
       \<lparr>pos0Range := Some [0, 2], pos1Range := Some [0, 3],
        dummy := Some (- 1), delta_dummy := Some 0\<rparr>"

text \<open>What the two scenarios return under \<open>calc_upper_bound\<close> and \<open>M_PI\<close>.\<close>

definition split_result :: result1d where
  "split_result =
     \<lparr>r_edges = [8388609 / 16777216, 25165823 / 16777216],
      r_outMerge = [100, 100],
      r_outData = [629145725 / 12582912, 629145475 / 12582912],
      r_outCount = [25165829 / 50331648, 25165819 / 50331648]\<rparr>"

definition grid_result :: result2d where
  "grid_result =
     \<lparr>r2_outMerge =
        [[100, 5157025334202596 / 135711266326817],
         [100, 36099141603953092 / 949977102680089],
         [- 1, - 1]],
      r2_edges0 = [8388609 / 16777216, 25165823 / 16777216],
      r2_edges1 = [8388609 / 16777216, 3 / 2, 41943039 / 16777216],
      r2_outData =
        [[7916488438579825 / 316659348799488, 9024794334854543 / 316659348799488],
         [7916482147122575 / 316659348799488, 9024785400988273 / 316659348799488],
         [0, 0]],
      r2_outCount =
        [[316659537543193 / 1266637395197952, 949978864287719 / 1266637395197952],
         [316659285884903 / 1266637395197952, 949977102680089 / 1266637395197952],
         [0, 0]]\<rparr>"

text \<open>
  One pixel whose raw weight equals the dummy value, with no \<^verbatim>\<open>delta_dummy\<close>, on a single
  bin.
\<close>

definition dummy_scenario :: args2d where
  "dummy_scenario = (call2d [5] [1] [1 / 10] [0] [1 / 10] (BinsPair 1 1))\<lparr>dummy := Some 5\<rparr>"

text \<open>One masked pixel centred at -1, and no user range.\<close>

definition masked_scenario :: args1d where
  "masked_scenario = (call1d [100] [- 1] [1 / 10] 2)\<lparr>mask := Some [1]\<rparr>"


text \<open>
  The split scenario with the user range [-1, 2], for \<^verbatim>\<open>histoBBox1d\<close> and for
  \<^verbatim>\<open>histoBBox2d\<close> with \<^verbatim>\<open>allow_pos0_neg\<close> set.
\<close>

definition neg_range_scenario :: args1d where
  "neg_range_scenario = (call1d [100] [1] [6 / 10] 2)\<lparr>pos0Range := Some [- 1, 2]\<rparr>"

definition neg_range_scenario_2d :: args2d where
  "neg_range_scenario_2d =
      (call2d [100] [1] [6 / 10] [0] [1 / 10] (BinsPair 2 1))
        \<lparr>pos0Range := Some [- 1, 2], allow_pos0_neg := True\<rparr>"

text \<open>The dummy scenario for \<^verbatim>\<open>histoBBox1d\<close>, on two bins.\<close>

definition dummy_scenario_1d :: args1d where
  "dummy_scenario_1d = (call1d [5] [1] [1 / 10] 2)\<lparr>dummy := Some 5\<rparr>"

text \<open>One masked pixel centred at -1 on axis 0 and at 1/2 on axis 1, and no user range.\<close>

definition masked_scenario_2d :: args2d where
  "masked_scenario_2d =
     (call2d [100] [- 1] [1 / 10] [1 / 2] [1 / 10] (BinsPair 2 1))\<lparr>mask := Some [1]\<rparr>"

text \<open>
  The dummy test of both accumulation loops, \<^verbatim>\<open>check_dummy and (fabs(data - cdummy) <= ddummy)\<close>,
  on the raw weight; a pixel is valid when it is neither masked nor excluded by that test.
\<close>

definition dummy_excluded :: "bool \<times> real \<times> real \<Rightarrow> real \<Rightarrow> bool" where
  "dummy_excluded dm w =
     (case dm of (check_dummy, cdummy, ddummy) \<Rightarrow> check_dummy \<and> \<bar>w - cdummy\<bar> \<le> ddummy)"

definition valid_pixel :: "'a hargs_scheme \<Rightarrow> bool \<times> real \<times> real \<Rightarrow> nat \<Rightarrow> bool" where
  "valid_pixel a dm idx = (\<not> masked a idx \<and> \<not> dummy_excluded dm (weights a ! idx))"

text \<open>
  A pixel that \<^verbatim>\<open>histoBBox1d\<close> counts: a valid pixel that passes the test on axis 1 and whose
  footprint \<open>[pos0 - delta_pos0, pos0 + delta_pos0]\<close> meets the bin range
  \<open>[pos0_min, pos0_max)\<close>.
\<close>

definition counted1d ::
  "args1d \<Rightarrow> bool \<times> real \<times> real \<Rightarrow> pos1_check \<Rightarrow> real \<Rightarrow> real \<Rightarrow> nat \<Rightarrow> bool" where
  "counted1d a dm p1 pos0_min pos0_max idx =
     (valid_pixel a dm idx \<and> \<not> outside_pos1 p1 idx
      \<and> pos0_min \<le> pos0 a ! idx + delta_pos0 a ! idx
      \<and> pos0 a ! idx - delta_pos0 a ! idx < pos0_max)"

text \<open>
  The overlap fraction of the spec: the part of the footprint \<open>[lo, hi]\<close> that lies in the
  range \<open>[rmin, rmax]\<close>, 1 if the footprint is inside, less if it is clipped, 0 if it is
  outside.
\<close>

definition overlap_fraction :: "real \<Rightarrow> real \<Rightarrow> real \<Rightarrow> real \<Rightarrow> real" where
  "overlap_fraction lo hi rmin rmax = max 0 (min hi rmax - max lo rmin) / (hi - lo)"

text \<open>One pixel with the footprint [1, 3], half of it beyond the user range [0, 2].\<close>

definition clipped_scenario :: args1d where
  "clipped_scenario = (call1d [100] [2] [1] 2)\<lparr>pos0Range := Some [0, 2]\<rparr>"

definition clipped_result :: result1d where
  "clipped_result =
     \<lparr>r_edges = [8388609 / 16777216, 25165823 / 16777216],
      r_outMerge = [100, 100],
      r_outData = [25 / 4194304, 419430375 / 4194304],
      r_outCount = [1 / 16777216, 16777215 / 16777216]\<rparr>"

text \<open>
  The shape of the two accumulators of \<^verbatim>\<open>histoBBox2d\<close>, the total of a two-dimensional
  array, and what a piece of the splitting code does to them: \<open>deposits m n st c r\<close> says
  that the piece, started in the state \<open>st\<close>, ends without an error in a state \<open>r\<close> of the
  same shape whose count total is that of \<open>st\<close> plus \<open>c\<close>.
\<close>

definition shaped :: "nat \<Rightarrow> nat \<Rightarrow> real list list \<Rightarrow> bool" where
  "shaped m n arr = (length arr = m \<and> list_all (\<lambda>row. length row = n) arr)"

definition total2 :: "real list list \<Rightarrow> real" where
  "total2 arr = sum_list (map sum_list arr)"

definition deposits ::
  "nat \<Rightarrow> nat \<Rightarrow> real list list \<times> real list list \<Rightarrow> real
     \<Rightarrow> error + real list list \<times> real list list \<Rightarrow> bool" where
  "deposits m n st c r =
     (case r of
        Inl e \<Rightarrow> False
      | Inr st' \<Rightarrow> shaped m n (fst st') \<and> shaped m n (snd st')
                   \<and> total2 (snd st') = total2 (snd st) + c)"

text \<open>
  A footprint that lies fully inside the active range. For \<^verbatim>\<open>histoBBox1d\<close> the range is
  \<open>[pos0_min, pos0_min + bins * delta)\<close>, the span of the bins. For \<^verbatim>\<open>histoBBox2d\<close> it is
  \<open>[pos0_min, pos0_maxin]\<close> by \<open>[pos1_min, pos1_maxin]\<close>, the resolved minima and maxima that
  the loop clips a footprint to.
\<close>

definition inside1d :: "real list \<Rightarrow> real list \<Rightarrow> real \<Rightarrow> real \<Rightarrow> nat \<Rightarrow> nat \<Rightarrow> bool" where
  "inside1d lo up pos0_min delta nbins idx =
     (0 < delta \<and> pos0_min \<le> lo ! idx \<and> lo ! idx \<le> up ! idx
      \<and> up ! idx < pos0_min + real nbins * delta)"

definition inside2d ::
  "real list \<Rightarrow> real list \<Rightarrow> real list \<Rightarrow> real list \<Rightarrow> real \<times> real \<times> real \<times> real
     \<Rightarrow> nat \<Rightarrow> bool" where
  "inside2d lo0 up0 cpos1 dpos1 rng idx =
     (case rng of (pos0_min, pos0_maxin, pos1_min, pos1_maxin) \<Rightarrow>
        pos0_min \<le> lo0 ! idx \<and> lo0 ! idx \<le> up0 ! idx \<and> up0 ! idx \<le> pos0_maxin
        \<and> pos1_min \<le> cpos1 ! idx - dpos1 ! idx \<and> 0 \<le> dpos1 ! idx
        \<and> cpos1 ! idx + dpos1 ! idx \<le> pos1_maxin)"

text \<open>
  The bins of \<^verbatim>\<open>histoBBox2d\<close> reach beyond the active range: the bin widths are positive, and
  on each axis the maximum of the range lies strictly below the upper end
  \<open>pos_min + bins * delta\<close> of the last bin. That upper end is the bound
  \<^verbatim>\<open>calc_upper_bound\<close> returns for the maximum.
\<close>

definition bins_cover :: "real \<times> real \<times> real \<times> real \<Rightarrow> real \<Rightarrow> real \<Rightarrow> nat \<Rightarrow> nat \<Rightarrow> bool" where
  "bins_cover rng delta0 delta1 m n =
     (case rng of (pos0_min, pos0_maxin, pos1_min, pos1_maxin) \<Rightarrow>
        0 < delta0 \<and> 0 < delta1
        \<and> pos0_maxin < pos0_min + real m * delta0
        \<and> pos1_maxin < pos1_min + real n * delta1)"

text \<open>
  One pixel of weight 100 whose footprint on axis 1 is [-1, 0], on a single bin and with no
  user range: the active range on axis 1 is the footprint, and its maximum is 0.
\<close>

definition edge_scenario :: args2d where
  "edge_scenario = call2d [100] [1 / 2] [1 / 4] [- 1 / 2] [1 / 2] (BinsPair 1 1)"



section \<open>Properties\<close>

subsection \<open>The error monad and loops\<close>

lemma ebind_Inr [simp]: "ebind (Inr x) f = f x"
  by (simp add: ebind_def)

lemma ebind_Inl [simp]: "ebind (Inl e) f = Inl e"
  by (simp add: ebind_def)

lemma ebind_eq_Inr: "ebind m f = Inr y \<longleftrightarrow> (\<exists>x. m = Inr x \<and> f x = Inr y)"
  by (cases m) simp_all

lemma fdiv_eq_Inr: "fdiv x y = Inr q \<longleftrightarrow> y \<noteq> 0 \<and> q = x / y"
  by (auto simp: fdiv_def)

lemma for_each_total:
  assumes "for_each xs body s = Inr s'" and "P s"
    and "\<And>i t t'. i \<in> set xs \<Longrightarrow> P t \<Longrightarrow> body i t = Inr t' \<Longrightarrow> P t' \<and> m t' = m t + c i"
  shows "P s' \<and> m s' = m s + sum_list (map c xs)"
  using assms
proof (induction xs arbitrary: s)
  case Nil
  then show ?case by simp
next
  case (Cons i rest)
  from Cons.prems(1) obtain t where t: "body i s = Inr t" and r: "for_each rest body t = Inr s'"
    by (auto split: sum.splits)
  have pt: "P t \<and> m t = m s + c i"
    by (rule Cons.prems(3) [of i s t]) (simp_all add: Cons.prems(2) t)
  have step: "P u' \<and> m u' = m u + c j" if "j \<in> set rest" "P u" "body j u = Inr u'" for j u u'
    using Cons.prems(3) [of j u u'] that by simp
  have "P s' \<and> m s' = m t + sum_list (map c rest)"
    using pt by (intro Cons.IH [OF r _ step]) simp_all
  then show ?case using pt by (simp add: add.assoc)
qed


lemma histoBBox1d_InrD:
  assumes "histoBBox1d ub a = Inr r"
  shows "\<exists>smin smax lo up pos0_min pos0_maxin pos0_max p1 sumData sumCount merged.
     length (pos0 a) = length (weights a) \<and> length (delta_pos0 a) = length (weights a) \<and>
     1 < bins a \<and> weights a \<noteq> [] \<and>
     size_ok (mask a) (length (weights a)) \<and>
     scan1d a = (smin, smax, lo, up) \<and>
     range1d ub a smin smax = (pos0_min, pos0_maxin, pos0_max) \<and>
     pos1_check1d ub a (length (weights a)) = Inr p1 \<and>
     for_each [0..<length (weights a)]
       (accumulate1d_step a (dummy1d a) lo up p1 pos0_min ((pos0_max - pos0_min) / real (bins a)))
       (replicate (bins a) 0, replicate (bins a) 0) = Inr (sumData, sumCount) \<and>
     merge1d (fst (snd (dummy1d a))) (normalization_factor a) sumData sumCount (bins a) = Inr merged \<and>
     r_outMerge r = merged \<and> r_outData r = sumData \<and> r_outCount r = sumCount"
  using assms unfolding histoBBox1d_def Let_def
  by (auto simp: ebind_eq_Inr fdiv_eq_Inr split: if_splits prod.splits)


lemma for_each_establish:
  assumes "for_each xs body s0 = Inr s" and "distinct xs" and "I s0"
    and "\<And>i t t'. i \<in> set xs \<Longrightarrow> I t \<Longrightarrow> body i t = Inr t'
           \<Longrightarrow> I t' \<and> Q i t' \<and> (\<forall>k. k \<noteq> i \<longrightarrow> Q k t \<longrightarrow> Q k t')"
  shows "I s \<and> (\<forall>i\<in>set xs. Q i s) \<and> (\<forall>k. k \<notin> set xs \<longrightarrow> Q k s0 \<longrightarrow> Q k s)"
  using assms
proof (induction xs arbitrary: s0)
  case Nil
  then show ?case by simp
next
  case (Cons i rest)
  from Cons.prems(1) obtain t where t: "body i s0 = Inr t" and r: "for_each rest body t = Inr s"
    by (auto split: sum.splits)
  have first: "I t \<and> Q i t \<and> (\<forall>k. k \<noteq> i \<longrightarrow> Q k s0 \<longrightarrow> Q k t)"
    by (rule Cons.prems(4) [of i s0 t]) (simp_all add: Cons.prems(3) t)
  have step: "I u' \<and> Q j u' \<and> (\<forall>k. k \<noteq> j \<longrightarrow> Q k u \<longrightarrow> Q k u')"
    if "j \<in> set rest" "I u" "body j u = Inr u'" for j u u'
    using Cons.prems(4) [of j u u'] that by simp
  have d: "distinct rest" "i \<notin> set rest" using Cons.prems(2) by simp_all
  have ih: "I s \<and> (\<forall>j\<in>set rest. Q j s) \<and> (\<forall>k. k \<notin> set rest \<longrightarrow> Q k t \<longrightarrow> Q k s)"
    using first by (intro Cons.IH [OF r d(1) _ step]) simp_all
  show ?case using ih first d(2) by auto
qed

lemma merge1d_spec:
  assumes "merge1d cd nf sd sc n = Inr merged"
  shows "length merged = n \<and> (\<forall>b<n. merge_bin epsilon cd nf (sd ! b) (sc ! b) = Inr (merged ! b))"
proof -
  let ?g = "\<lambda>b. merge_bin epsilon cd nf (sd ! b) (sc ! b)"
  let ?body = "\<lambda>idx m. ebind (?g idx) (\<lambda>v. Inr (m[idx := v]))"
  have run: "for_each [0..<n] ?body (replicate n 0) = Inr merged"
    using assms by (simp add: merge1d_def)
  have "length merged = n \<and> (\<forall>i\<in>set [0..<n]. ?g i = Inr (merged ! i))
      \<and> (\<forall>k. k \<notin> set [0..<n] \<longrightarrow> ?g k = Inr (replicate n 0 ! k) \<longrightarrow> ?g k = Inr (merged ! k))"
  proof (rule for_each_establish [OF run, where I = "\<lambda>t. length t = n"
          and Q = "\<lambda>i t. ?g i = Inr (t ! i)"])
    show "distinct [0..<n]" by simp
    show "length (replicate n (0::real)) = n" by simp
    fix i t t'
    assume "i \<in> set [0..<n]" "length t = n" "?body i t = Inr t'"
    then show "length t' = n \<and> ?g i = Inr (t' ! i)
        \<and> (\<forall>k. k \<noteq> i \<longrightarrow> ?g k = Inr (t ! k) \<longrightarrow> ?g k = Inr (t' ! k))"
      by (auto simp: ebind_eq_Inr)
  qed
  then show ?thesis by simp
qed

lemma merge2d_row:
  assumes run: "for_each [0..<n]
      (\<lambda>j merged. ebind (g j) (\<lambda>v. Inr (merged[i := (merged ! i)[j := v]]))) t0 = Inr t"
    and i: "i < length t0" and n: "length (t0 ! i) = n"
  shows "length t = length t0 \<and> length (t ! i) = n \<and> (\<forall>k. k \<noteq> i \<longrightarrow> t ! k = t0 ! k)
      \<and> (\<forall>j<n. g j = Inr (t ! i ! j))"
proof -
  let ?body = "\<lambda>j merged. ebind (g j) (\<lambda>v. Inr (merged[i := (merged ! i)[j := v]]))"
  let ?I = "\<lambda>u. length u = length t0 \<and> length (u ! i) = n \<and> (\<forall>k. k \<noteq> i \<longrightarrow> u ! k = t0 ! k)"
  have "?I t \<and> (\<forall>j\<in>set [0..<n]. g j = Inr (t ! i ! j))
      \<and> (\<forall>k. k \<notin> set [0..<n] \<longrightarrow> g k = Inr (t0 ! i ! k) \<longrightarrow> g k = Inr (t ! i ! k))"
  proof (rule for_each_establish [OF run, where I = ?I and Q = "\<lambda>j u. g j = Inr (u ! i ! j)"])
    show "distinct [0..<n]" by simp
    show "?I t0" using n by simp
    fix j u u'
    assume "j \<in> set [0..<n]" "?I u" "?body j u = Inr u'"
    then show "?I u' \<and> g j = Inr (u' ! i ! j)
        \<and> (\<forall>k. k \<noteq> j \<longrightarrow> g k = Inr (u ! i ! k) \<longrightarrow> g k = Inr (u' ! i ! k))"
      using i by (auto simp: ebind_eq_Inr)
  qed
  then show ?thesis by simp
qed

lemma merge2d_spec:
  assumes "merge2d cd nf sd sc m n = Inr merged"
  shows "length merged = m \<and> (\<forall>i<m. length (merged ! i) = n
      \<and> (\<forall>j<n. merge_bin epsilon cd nf (sd ! i ! j) (sc ! i ! j) = Inr (merged ! i ! j)))"
proof -
  let ?g = "\<lambda>i j. merge_bin epsilon cd nf (sd ! i ! j) (sc ! i ! j)"
  let ?inner = "\<lambda>i j merged. ebind (?g i j) (\<lambda>v. Inr (merged[i := (merged ! i)[j := v]]))"
  let ?body = "\<lambda>i merged. for_each [0..<n] (?inner i) merged"
  let ?I = "\<lambda>t. length t = m \<and> (\<forall>k<m. length (t ! k) = n)"
  let ?Q = "\<lambda>i t. \<forall>j<n. ?g i j = Inr (t ! i ! j)"
  have run: "for_each [0..<m] ?body (zeros2 m n) = Inr merged"
    using assms by (simp add: merge2d_def)
  have "?I merged \<and> (\<forall>i\<in>set [0..<m]. ?Q i merged)
      \<and> (\<forall>k. k \<notin> set [0..<m] \<longrightarrow> ?Q k (zeros2 m n) \<longrightarrow> ?Q k merged)"
  proof (rule for_each_establish [OF run, where I = ?I and Q = ?Q])
    show "distinct [0..<m]" by simp
    show "?I (zeros2 m n)" by (simp add: zeros2_def)
    fix i t t'
    assume i: "i \<in> set [0..<m]" and t: "?I t" and b: "?body i t = Inr t'"
    have "length t' = length t \<and> length (t' ! i) = n \<and> (\<forall>k. k \<noteq> i \<longrightarrow> t' ! k = t ! k)
        \<and> (\<forall>j<n. ?g i j = Inr (t' ! i ! j))"
      using i t by (intro merge2d_row [OF b]) simp_all
    then show "?I t' \<and> ?Q i t' \<and> (\<forall>k. k \<noteq> i \<longrightarrow> ?Q k t \<longrightarrow> ?Q k t')"
      using t by (metis)
  qed
  then show ?thesis by simp
qed

lemma merge_bin_Inr:
  assumes "merge_bin eps cd nf sd sc = Inr v"
  shows "v = (if sc > eps then sd / sc / nf else cd)" and "sc > eps \<Longrightarrow> sc \<noteq> 0 \<and> nf \<noteq> 0"
  using assms by (auto simp: merge_bin_def ebind_eq_Inr fdiv_eq_Inr split: if_splits)

lemma histoBBox2d_InrD:
  assumes "histoBBox2d ub pi_c a = Inr r"
  shows "\<exists>cpos1 dpos1 bins0 bins1 dm scanned lo0 up0 lo1 up1 pos0_min pos0_maxin pos0_max
       pos1_min pos1_maxin pos1_max sumData sumCount merged.
     pos1 a = Some cpos1 \<and> delta_pos1 a = Some dpos1 \<and>
     length (pos0 a) = length (weights a) \<and> length (delta_pos0 a) = length (weights a) \<and>
     length cpos1 = length (weights a) \<and> length dpos1 = length (weights a) \<and>
     weights a \<noteq> [] \<and> size_ok (mask a) (length (weights a)) \<and>
     resolve_bins (bins2 a) = (bins0, bins1) \<and>
     dummy2d a = Inr dm \<and>
     scan2d pi_c a cpos1 dpos1 = (scanned, (lo0, up0, lo1, up1)) \<and>
     range2d ub a scanned = (pos0_min, pos0_maxin, pos0_max, pos1_min, pos1_maxin, pos1_max) \<and>
     for_each [0..<length (weights a)]
       (accumulate2d_step a dm lo0 up0 cpos1 dpos1 (pos0_min, pos0_maxin, pos1_min, pos1_maxin)
          ((pos0_max - pos0_min) / real_of_int bins0) ((pos1_max - pos1_min) / real_of_int bins1))
       (zeros2 (nat bins0) (nat bins1), zeros2 (nat bins0) (nat bins1)) = Inr (sumData, sumCount) \<and>
     merge2d (fst (snd dm)) (normalization_factor a) sumData sumCount (nat bins0) (nat bins1)
       = Inr merged \<and>
     r2_outMerge r = numpy_T (nat bins0) (nat bins1) merged \<and>
     r2_outData r = numpy_T (nat bins0) (nat bins1) sumData \<and>
     r2_outCount r = numpy_T (nat bins0) (nat bins1) sumCount"
  using assms unfolding histoBBox2d_def Let_def
  by (auto simp: ebind_eq_Inr fdiv_eq_Inr split: if_splits prod.splits option.splits)


lemma dummy1d_fill: "fst (snd (dummy1d a)) = fill_value a"
  by (simp add: dummy1d_def fill_value_def split: option.splits)

lemma dummy2d_fill: "dummy2d a = Inr dm \<Longrightarrow> fst (snd dm) = fill_value a"
  by (auto simp: dummy2d_def fill_value_def split: option.splits)

lemma numpy_T_nth: "i < m \<Longrightarrow> j < n \<Longrightarrow> numpy_T m n arr ! j ! i = arr ! i ! j"
  by (simp add: numpy_T_def)

lemma numpy_T_shape: "length (numpy_T m n arr) = n" "row \<in> set (numpy_T m n arr) \<Longrightarrow> length row = m"
  by (auto simp: numpy_T_def)


subsection \<open>Evaluating the model on concrete inputs\<close>

lemma replicate_unfold: "replicate n x = (if n = 0 then [] else x # replicate (n - 1) x)"
  by (cases n) simp_all

lemmas eval_defs =
  Let_def size_ok_def masked_def corrections_def user_range_def py_min_def py_max_def
  merge_bin_def epsilon_def linspace_def get_bin_number_def to_ssize_t_def fdiv_def
  calc_upper_bound_def M_PI_def
  dummy1d_def scan1d_def scan1d_step_def range1d_def add_at_def outside_pos1_def
  clip_bin0_max_def clip_bin0_min_def split1d_def accumulate1d_step_def merge1d_def
  pos1_check1d_def
  histoBBox1d_def
  resolve_bins_def dummy2d_def zeros2_def numpy_T_def wrap_index_def add_at2_def deposit_def
  scan2d_step_def scan2d_def range2d_def split2d_def accumulate2d_step_def merge2d_def
  histoBBox2d_def
  call1d_def call2d_def upt_rec replicate_unfold

lemma split_scenario_result: "histoBBox1d calc_upper_bound split_scenario = Inr split_result"
  by (simp add: split_scenario_def split_result_def eval_defs)

lemma grid_scenario_result: "histoBBox2d calc_upper_bound M_PI grid_scenario = Inr grid_result"
  by (simp add: grid_scenario_def grid_result_def eval_defs)

subsection \<open>The merge loops\<close>

text \<open>
  Claim C6. For every output bin of \<^verbatim>\<open>histoBBox1d\<close> and of \<^verbatim>\<open>histoBBox2d\<close>, the merged
  output is \<open>OutputSum / OutputCount / normalization_factor\<close> when the bin's count exceeds
  \<open>epsilon = 1e-10\<close>, and the configured dummy value (or the empty value, or 0.0, when no
  dummy was configured) otherwise. The arrays are the returned ones (for \<^verbatim>\<open>histoBBox2d\<close>,
  after the transposition); where the quotient is taken, no divisor is zero.
\<close>

theorem merge_rule:
  "(histoBBox1d ub a = Inr r \<longrightarrow>
      (\<forall>b<bins a.
         r_outMerge r ! b =
           (if r_outCount r ! b > epsilon
            then r_outData r ! b / r_outCount r ! b / normalization_factor a
            else fill_value a)
         \<and> (r_outCount r ! b > epsilon \<longrightarrow> normalization_factor a \<noteq> 0)))
   \<and> (histoBBox2d ub pi_c a2 = Inr r2 \<longrightarrow>
      (\<forall>i<nat (fst (resolve_bins (bins2 a2))). \<forall>j<nat (snd (resolve_bins (bins2 a2))).
         r2_outMerge r2 ! j ! i =
           (if r2_outCount r2 ! j ! i > epsilon
            then r2_outData r2 ! j ! i / r2_outCount r2 ! j ! i / normalization_factor a2
            else fill_value a2)
         \<and> (r2_outCount r2 ! j ! i > epsilon \<longrightarrow> normalization_factor a2 \<noteq> 0)))
   \<and> epsilon = 1 / 10 ^ 10"
proof (intro conjI impI allI)
  fix b
  assume r: "histoBBox1d ub a = Inr r" and b: "b < bins a"
  from histoBBox1d_InrD [OF r] obtain sumData sumCount merged where
    m: "merge1d (fst (snd (dummy1d a))) (normalization_factor a) sumData sumCount (bins a) = Inr merged"
    and f: "r_outMerge r = merged" "r_outData r = sumData" "r_outCount r = sumCount"
    by blast
  from merge1d_spec [OF m] b
  have mb: "merge_bin epsilon (fill_value a) (normalization_factor a) (sumData ! b) (sumCount ! b)
      = Inr (merged ! b)"
    by (simp add: dummy1d_fill)
  show "r_outMerge r ! b =
      (if r_outCount r ! b > epsilon
       then r_outData r ! b / r_outCount r ! b / normalization_factor a else fill_value a)"
    using merge_bin_Inr(1) [OF mb] f by simp
  show "normalization_factor a \<noteq> 0" if "r_outCount r ! b > epsilon"
    using merge_bin_Inr(2) [OF mb] f that by simp
next
  fix i j
  assume r: "histoBBox2d ub pi_c a2 = Inr r2"
    and i: "i < nat (fst (resolve_bins (bins2 a2)))"
    and j: "j < nat (snd (resolve_bins (bins2 a2)))"
  from histoBBox2d_InrD [OF r] obtain bins0 bins1 dm sumData sumCount merged where
    rb: "resolve_bins (bins2 a2) = (bins0, bins1)" and dm: "dummy2d a2 = Inr dm"
    and m: "merge2d (fst (snd dm)) (normalization_factor a2) sumData sumCount (nat bins0) (nat bins1)
        = Inr merged"
    and f: "r2_outMerge r2 = numpy_T (nat bins0) (nat bins1) merged"
      "r2_outData r2 = numpy_T (nat bins0) (nat bins1) sumData"
      "r2_outCount r2 = numpy_T (nat bins0) (nat bins1) sumCount"
    by blast
  have ij: "i < nat bins0" "j < nat bins1" using i j rb by simp_all
  from merge2d_spec [OF m] ij
  have mb: "merge_bin epsilon (fill_value a2) (normalization_factor a2)
      (sumData ! i ! j) (sumCount ! i ! j) = Inr (merged ! i ! j)"
    by (simp add: dummy2d_fill [OF dm])
  show "r2_outMerge r2 ! j ! i =
      (if r2_outCount r2 ! j ! i > epsilon
       then r2_outData r2 ! j ! i / r2_outCount r2 ! j ! i / normalization_factor a2
       else fill_value a2)"
    using merge_bin_Inr(1) [OF mb] f ij by (simp add: numpy_T_nth)
  show "normalization_factor a2 \<noteq> 0" if "r2_outCount r2 ! j ! i > epsilon"
    using merge_bin_Inr(2) [OF mb] f ij that by (simp add: numpy_T_nth)
next
  show "epsilon = 1 / 10 ^ 10" by (simp add: epsilon_def)
qed

theorem merge_rule_witness:
  "histoBBox1d calc_upper_bound split_scenario = Inr split_result
   \<and> r_outCount split_result ! 0 > epsilon
   \<and> r_outMerge split_result ! 0
       = r_outData split_result ! 0 / r_outCount split_result ! 0
           / normalization_factor split_scenario
   \<and> histoBBox2d calc_upper_bound M_PI grid_scenario = Inr grid_result
   \<and> r2_outCount grid_result ! 0 ! 1 > epsilon
   \<and> r2_outMerge grid_result ! 0 ! 1
       = r2_outData grid_result ! 0 ! 1 / r2_outCount grid_result ! 0 ! 1
           / normalization_factor grid_scenario
   \<and> r2_outCount grid_result ! 2 ! 0 \<le> epsilon
   \<and> r2_outMerge grid_result ! 2 ! 0 = fill_value grid_scenario"
proof -
  note m = merge_rule [of calc_upper_bound split_scenario split_result M_PI grid_scenario grid_result]
  note m1 = m [THEN conjunct1, rule_format, OF split_scenario_result]
  note m2 = m [THEN conjunct2, THEN conjunct1, rule_format, OF grid_scenario_result]
  have b: "(0::nat) < bins split_scenario"
    by (simp add: split_scenario_def call1d_def)
  have ij: "(1::nat) < nat (fst (resolve_bins (bins2 grid_scenario)))"
    "(0::nat) < nat (fst (resolve_bins (bins2 grid_scenario)))"
    "(0::nat) < nat (snd (resolve_bins (bins2 grid_scenario)))"
    "(2::nat) < nat (snd (resolve_bins (bins2 grid_scenario)))"
    by (simp_all add: grid_scenario_def call2d_def resolve_bins_def)
  have c1: "r_outCount split_result ! 0 > epsilon"
    by (simp add: split_result_def epsilon_def)
  have c2: "r2_outCount grid_result ! 0 ! 1 > epsilon"
    and c3: "r2_outCount grid_result ! 2 ! 0 \<le> epsilon"
    by (simp_all add: grid_result_def epsilon_def)
  have 1: "r_outMerge split_result ! 0
      = r_outData split_result ! 0 / r_outCount split_result ! 0
          / normalization_factor split_scenario"
    using m1 [OF b] c1 by simp
  have 2: "r2_outMerge grid_result ! 0 ! 1
      = r2_outData grid_result ! 0 ! 1 / r2_outCount grid_result ! 0 ! 1
          / normalization_factor grid_scenario"
    using m2 [OF ij(1) ij(3)] c2 by simp
  have 3: "r2_outMerge grid_result ! 2 ! 0 = fill_value grid_scenario"
    using m2 [OF ij(2) ij(4)] c3 by simp
  show ?thesis using split_scenario_result grid_scenario_result c1 c2 c3 1 2 3 by blast
qed

subsection \<open>Bin counts and shapes\<close>

lemma linspace_length: "length (linspace start stop n) = n"
  by (simp add: linspace_def)

lemma histoBBox2d_edges:
  assumes "histoBBox2d ub pi_c a = Inr r" and "resolve_bins (bins2 a) = (bins0, bins1)"
  shows "length (r2_edges0 r) = nat bins0 \<and> length (r2_edges1 r) = nat bins1"
  using assms unfolding histoBBox2d_def Let_def
  by (auto simp: ebind_eq_Inr fdiv_eq_Inr linspace_length split: if_splits prod.splits option.splits)

lemma histoBBox2d_shape:
  assumes "histoBBox2d ub pi_c a = Inr r" and "resolve_bins (bins2 a) = (bins0, bins1)"
  shows "length (r2_outMerge r) = nat bins1 \<and> length (r2_outData r) = nat bins1
      \<and> length (r2_outCount r) = nat bins1
      \<and> (\<forall>row\<in>set (r2_outMerge r) \<union> set (r2_outData r) \<union> set (r2_outCount r).
            length row = nat bins0)"
proof -
  from histoBBox2d_InrD [OF assms(1)] assms(2) obtain sumData sumCount merged where
    "r2_outMerge r = numpy_T (nat bins0) (nat bins1) merged"
    "r2_outData r = numpy_T (nat bins0) (nat bins1) sumData"
    "r2_outCount r = numpy_T (nat bins0) (nat bins1) sumCount"
    by auto
  then show ?thesis by (auto simp: numpy_T_shape)
qed

text \<open>
  Claim C7, as amended. \<^verbatim>\<open>histoBBox2d\<close> builds its three arrays with shape [bins0][bins1] and
  returns their transposes: the merged array, and likewise the sum and the count arrays, are
  returned with shape [bins1][bins0], axis 1 indexed first, for every pair of bin counts.
  The two edge arrays have bins0 and bins1 entries.
\<close>

theorem transposed_shape:
  assumes "histoBBox2d ub pi_c a = Inr r" and "resolve_bins (bins2 a) = (bins0, bins1)"
  shows "length (r2_outMerge r) = nat bins1 \<and> (\<forall>row\<in>set (r2_outMerge r). length row = nat bins0)
     \<and> length (r2_outData r) = nat bins1 \<and> (\<forall>row\<in>set (r2_outData r). length row = nat bins0)
     \<and> length (r2_outCount r) = nat bins1 \<and> (\<forall>row\<in>set (r2_outCount r). length row = nat bins0)
     \<and> length (r2_edges0 r) = nat bins0 \<and> length (r2_edges1 r) = nat bins1"
  using histoBBox2d_shape [OF assms] histoBBox2d_edges [OF assms] by simp

theorem transposed_shape_witness:
  "histoBBox2d calc_upper_bound M_PI grid_scenario = Inr grid_result
   \<and> resolve_bins (bins2 grid_scenario) = (2, 3)
   \<and> length (r2_outMerge grid_result) = nat 3
   \<and> map length (r2_outMerge grid_result) = [nat 2, nat 2, nat 2]
   \<and> length (r2_edges0 grid_result) = nat 2 \<and> length (r2_edges1 grid_result) = nat 3"
proof -
  have rb: "resolve_bins (bins2 grid_scenario) = (2, 3)"
    by (simp add: grid_scenario_def call2d_def resolve_bins_def)
  from transposed_shape [OF grid_scenario_result rb]
  have "length (r2_outMerge grid_result) = nat 3"
    and "\<forall>row\<in>set (r2_outMerge grid_result). length row = nat 2"
    and "length (r2_edges0 grid_result) = nat 2" and "length (r2_edges1 grid_result) = nat 3"
    by simp_all
  then show ?thesis using grid_scenario_result rb by (simp add: grid_result_def)
qed

theorem transposed_shape_counterexample:
  "histoBBox2d calc_upper_bound M_PI grid_scenario = Inr grid_result
   \<and> bins2 grid_scenario = BinsPair 2 3
   \<and> length (r2_outMerge grid_result) = 3
   \<and> map length (r2_outMerge grid_result) = [2, 2, 2]
   \<and> length (r2_outMerge grid_result) \<noteq> 2"
  using grid_scenario_result by (simp add: grid_scenario_def call2d_def grid_result_def)










subsection \<open>Range resolution\<close>

lemma py_min_Min: "xs \<noteq> [] \<Longrightarrow> py_min xs = Min (set xs)"
  by (cases xs) (simp_all add: py_min_def Min.set_eq_fold [symmetric])

lemma py_max_Max: "xs \<noteq> [] \<Longrightarrow> py_max xs = Max (set xs)"
  by (cases xs) (simp_all add: py_max_def Max.set_eq_fold [symmetric])

lemma user_range_Some:
  "1 < length xs \<Longrightarrow> user_range (Some xs) = Some (Min (set xs), Max (set xs))"
proof -
  assume "1 < length xs"
  then have "xs \<noteq> []" by auto
  then show ?thesis
    using \<open>1 < length xs\<close> by (simp add: user_range_def py_min_Min py_max_Max)
qed

text \<open>
  Claim C5, as amended. When a user range \<^verbatim>\<open>pos0Range\<close> with at least two entries is supplied,
  the user-visible maximum is \<^verbatim>\<open>max(pos0Range)\<close> and the upper bound is its rounding. The
  resolved minimum is \<^verbatim>\<open>min(pos0Range)\<close> clamped up to 0 in \<^verbatim>\<open>histoBBox1d\<close>, and in
  \<^verbatim>\<open>histoBBox2d\<close> unless \<^verbatim>\<open>allow_pos0_neg\<close> is set: the clamp of a negative minimum to 0
  comes after the user range and takes precedence over it. (Both functions hand the scanned
  range to \<open>range1d\<close> and \<open>range2d\<close>, whatever it is.)
\<close>

theorem explicit_range:
  assumes "1 < length xs"
  shows "(pos0Range a = Some xs \<longrightarrow>
            range1d ub a smin smax = (max 0 (Min (set xs)), Max (set xs), ub (Max (set xs))))
       \<and> (pos0Range a2 = Some xs \<longrightarrow>
            (\<exists>pos1_min pos1_maxin pos1_max.
               range2d ub a2 scanned =
                 (if allow_pos0_neg a2 then Min (set xs) else max 0 (Min (set xs)),
                  Max (set xs), ub (Max (set xs)), pos1_min, pos1_maxin, pos1_max)))"
proof (intro conjI impI)
  assume "pos0Range a = Some xs"
  then show "range1d ub a smin smax = (max 0 (Min (set xs)), Max (set xs), ub (Max (set xs)))"
    using user_range_Some [OF assms] by (simp add: range1d_def max_def)
next
  assume "pos0Range a2 = Some xs"
  then show "\<exists>pos1_min pos1_maxin pos1_max.
      range2d ub a2 scanned =
        (if allow_pos0_neg a2 then Min (set xs) else max 0 (Min (set xs)),
         Max (set xs), ub (Max (set xs)), pos1_min, pos1_maxin, pos1_max)"
    using user_range_Some [OF assms]
    by (cases scanned) (auto simp: range2d_def max_def split: option.splits prod.splits)
qed

lemma neg_range_minmax: "Min (set [- 1, 2 :: real]) = - 1" "Max (set [- 1, 2 :: real]) = 2"
  by simp_all

theorem explicit_range_witness:
  "1 < length [- 1, 2 :: real]
   \<and> pos0Range neg_range_scenario = Some [- 1, 2]
   \<and> range1d calc_upper_bound neg_range_scenario 0 0 = (0, 2, calc_upper_bound 2)
   \<and> pos0Range neg_range_scenario_2d = Some [- 1, 2]
   \<and> fst (range2d calc_upper_bound neg_range_scenario_2d (0, 0, 0, 0)) = - 1
   \<and> fst (snd (range2d calc_upper_bound neg_range_scenario_2d (0, 0, 0, 0))) = 2"
proof -
  have l: "1 < length [- 1, 2 :: real]" by simp
  have p: "pos0Range neg_range_scenario = Some [- 1, 2]"
    "pos0Range neg_range_scenario_2d = Some [- 1, 2]"
    "allow_pos0_neg neg_range_scenario_2d"
    by (simp_all add: neg_range_scenario_def neg_range_scenario_2d_def call1d_def call2d_def)
  note e = explicit_range [OF l, where a = neg_range_scenario and ?a2.0 = neg_range_scenario_2d
      and ub = calc_upper_bound and smin = 0 and smax = 0 and scanned = "(0, 0, 0, 0)"]
  have 1: "range1d calc_upper_bound neg_range_scenario 0 0 = (0, 2, calc_upper_bound 2)"
    using e p(1) by (simp only: neg_range_minmax) simp
  obtain pos1_min pos1_maxin pos1_max where
    "range2d calc_upper_bound neg_range_scenario_2d (0, 0, 0, 0)
      = (- 1, 2, calc_upper_bound 2, pos1_min, pos1_maxin, pos1_max)"
    using e p(2,3) by (simp only: neg_range_minmax) auto
  then show ?thesis using l p 1 by simp
qed

theorem explicit_range_counterexample:
  "pos0Range neg_range_scenario = Some [- 1, 2]
   \<and> Min (set [- 1, 2 :: real]) = - 1
   \<and> (case scan1d neg_range_scenario of (smin, smax, lo, up) \<Rightarrow>
         fst (range1d calc_upper_bound neg_range_scenario smin smax)) = 0
   \<and> histoBBox1d calc_upper_bound neg_range_scenario = Inr split_result"
  by (simp add: neg_range_scenario_def split_result_def eval_defs)

lemma scan1d_step_bounds:
  assumes "scan1d_step a idx (mn, mx, lo, up) = (mn', mx', lo', up')"
  shows "mn' \<le> mn \<and> mx \<le> mx'"
  using assms by (auto simp: scan1d_step_def Let_def split: if_splits)

lemma fold_scan1d_bounds:
  assumes "fold (scan1d_step a) xs (mn, mx, lo, up) = (mn', mx', lo', up')"
  shows "mn' \<le> mn \<and> mx \<le> mx'"
  using assms
proof (induction xs arbitrary: mn mx lo up)
  case Nil
  then show ?case by simp
next
  case (Cons i rest)
  obtain mn1 mx1 lo1 up1 where s: "scan1d_step a i (mn, mx, lo, up) = (mn1, mx1, lo1, up1)"
    by (cases "scan1d_step a i (mn, mx, lo, up)")
  from Cons.prems have "fold (scan1d_step a) rest (mn1, mx1, lo1, up1) = (mn', mx', lo', up')"
    by (simp add: s)
  from Cons.IH [OF this] scan1d_step_bounds [OF s] show ?case by simp
qed

lemma fold_all_masked:
  assumes "\<And>i s. i \<in> set xs \<Longrightarrow> f i s = s"
  shows "fold f xs s = s"
  using assms by (induction xs arbitrary: s) simp_all

lemma scan1d_all_masked:
  assumes "\<forall>i<length (weights a). masked a i"
  shows "scan1d a = (pos0 a ! 0, pos0 a ! 0,
      replicate (length (weights a)) 0, replicate (length (weights a)) 0)"
  unfolding scan1d_def Let_def
  by (rule fold_all_masked) (simp add: scan1d_step_def assms split: prod.splits)

lemma scan2d_step_bounds:
  assumes "scan2d_step pi_c a c1 d1 idx ((mn0, mx0, mn1, mx1), arrs)
      = ((mn0', mx0', mn1', mx1'), arrs')"
  shows "mn0' \<le> mn0 \<and> mx0 \<le> mx0' \<and> mn1' \<le> mn1 \<and> mx1 \<le> mx1'"
  using assms
  by (cases arrs) (auto simp: scan2d_step_def Let_def split: if_splits)

lemma fold_scan2d_bounds:
  assumes "fold (scan2d_step pi_c a c1 d1) xs ((mn0, mx0, mn1, mx1), arrs)
      = ((mn0', mx0', mn1', mx1'), arrs')"
  shows "mn0' \<le> mn0 \<and> mx0 \<le> mx0' \<and> mn1' \<le> mn1 \<and> mx1 \<le> mx1'"
  using assms
proof (induction xs arbitrary: mn0 mx0 mn1 mx1 arrs)
  case Nil
  then show ?case by simp
next
  case (Cons i rest)
  obtain a0 b0 a1 b1 arrs1 where
    s: "scan2d_step pi_c a c1 d1 i ((mn0, mx0, mn1, mx1), arrs) = ((a0, b0, a1, b1), arrs1)"
    by (metis prod_cases3 surj_pair)
  from Cons.prems
  have "fold (scan2d_step pi_c a c1 d1) rest ((a0, b0, a1, b1), arrs1)
      = ((mn0', mx0', mn1', mx1'), arrs')"
    by (simp add: s)
  from Cons.IH [OF this] scan2d_step_bounds [OF s] show ?case by simp
qed

lemma scan2d_all_masked:
  assumes "\<forall>i<length (weights a). masked a i"
  shows "fst (scan2d pi_c a c1 d1) = (pos0 a ! 0, pos0 a ! 0, c1 ! 0, c1 ! 0)"
proof -
  have "scan2d pi_c a c1 d1 =
      ((pos0 a ! 0, pos0 a ! 0, c1 ! 0, c1 ! 0),
       (replicate (length (weights a)) 0, replicate (length (weights a)) 0,
        replicate (length (weights a)) 0, replicate (length (weights a)) 0))"
    unfolding scan2d_def Let_def
    by (rule fold_all_masked) (simp add: scan2d_step_def assms split: prod.splits)
  then show ?thesis by simp
qed

text \<open>
  Claim C10, as amended. In both functions the scanned range starts at the centre of pixel 0
  before the mask is consulted: the scanned range contains that centre even if pixel 0 is
  masked, and it is exactly that value on each axis if every pixel is masked. With no user
  range the resolved maximum is the scanned one, as is the resolved minimum of axis 1; the
  resolved minimum of axis 0 is the scanned one clamped up to 0 (in \<^verbatim>\<open>histoBBox2d\<close> unless
  \<^verbatim>\<open>allow_pos0_neg\<close> is set). So the resolved axis-0 range contains the centre of pixel 0
  when that centre is not negative.
\<close>

theorem first_pixel_seed:
  "(scan1d a = (smin, smax, lo, up) \<longrightarrow>
      smin \<le> pos0 a ! 0 \<and> pos0 a ! 0 \<le> smax
      \<and> ((\<forall>i<length (weights a). masked a i) \<longrightarrow> smin = pos0 a ! 0 \<and> smax = pos0 a ! 0)
      \<and> (user_range (pos0Range a) = None \<longrightarrow>
           range1d ub a smin smax = (max 0 smin, smax, ub smax)))
   \<and> (scan2d pi_c a2 c1 d1 = ((s0min, s0max, s1min, s1max), arrs) \<longrightarrow>
      s0min \<le> pos0 a2 ! 0 \<and> pos0 a2 ! 0 \<le> s0max \<and> s1min \<le> c1 ! 0 \<and> c1 ! 0 \<le> s1max
      \<and> ((\<forall>i<length (weights a2). masked a2 i) \<longrightarrow>
           s0min = pos0 a2 ! 0 \<and> s0max = pos0 a2 ! 0 \<and> s1min = c1 ! 0 \<and> s1max = c1 ! 0)
      \<and> (user_range (pos0Range a2) = None \<and> user_range (pos1Range a2) = None \<longrightarrow>
           range2d ub a2 (s0min, s0max, s1min, s1max) =
             (if allow_pos0_neg a2 then s0min else max 0 s0min, s0max, ub s0max,
              s1min, s1max, ub s1max)))"
proof (intro conjI impI)
  assume s: "scan1d a = (smin, smax, lo, up)"
  then show "smin \<le> pos0 a ! 0" "pos0 a ! 0 \<le> smax"
    using fold_scan1d_bounds [of a "[0..<length (weights a)]" "pos0 a ! 0" "pos0 a ! 0"
        "replicate (length (weights a)) 0" "replicate (length (weights a)) 0" smin smax lo up]
    by (simp_all add: scan1d_def Let_def)
  show "smin = pos0 a ! 0" "smax = pos0 a ! 0" if "\<forall>i<length (weights a). masked a i"
    using scan1d_all_masked [OF that] s by simp_all
  show "range1d ub a smin smax = (max 0 smin, smax, ub smax)"
    if "user_range (pos0Range a) = None"
    using that by (simp add: range1d_def max_def)
next
  assume s: "scan2d pi_c a2 c1 d1 = ((s0min, s0max, s1min, s1max), arrs)"
  then show "s0min \<le> pos0 a2 ! 0" "pos0 a2 ! 0 \<le> s0max" "s1min \<le> c1 ! 0" "c1 ! 0 \<le> s1max"
    using fold_scan2d_bounds [of pi_c a2 c1 d1 "[0..<length (weights a2)]"
        "pos0 a2 ! 0" "pos0 a2 ! 0" "c1 ! 0" "c1 ! 0" _ s0min s0max s1min s1max arrs]
    by (simp_all add: scan2d_def Let_def)
  show "s0min = pos0 a2 ! 0" "s0max = pos0 a2 ! 0" "s1min = c1 ! 0" "s1max = c1 ! 0"
    if "\<forall>i<length (weights a2). masked a2 i"
    using scan2d_all_masked [OF that, of pi_c c1 d1] s by simp_all
  show "range2d ub a2 (s0min, s0max, s1min, s1max) =
      (if allow_pos0_neg a2 then s0min else max 0 s0min, s0max, ub s0max, s1min, s1max, ub s1max)"
    if "user_range (pos0Range a2) = None \<and> user_range (pos1Range a2) = None"
    using that by (simp add: range2d_def max_def)
qed

lemma masked_scenario_scan: "scan1d masked_scenario = (- 1, - 1, [0], [0])"
  by (simp add: masked_scenario_def eval_defs)

lemma masked_scenario_2d_scan:
  "scan2d M_PI masked_scenario_2d [1 / 2] [1 / 10] = ((- 1, - 1, 1 / 2, 1 / 2), ([0], [0], [0], [0]))"
  by (simp add: masked_scenario_2d_def eval_defs)

theorem first_pixel_seed_witness:
  "scan1d masked_scenario = (- 1, - 1, [0], [0])
   \<and> masked masked_scenario 0 \<and> length (weights masked_scenario) = 1
   \<and> user_range (pos0Range masked_scenario) = None
   \<and> pos0 masked_scenario ! 0 = - 1
   \<and> range1d calc_upper_bound masked_scenario (- 1) (- 1) = (0, - 1, calc_upper_bound (- 1))
   \<and> scan2d M_PI masked_scenario_2d [1 / 2] [1 / 10]
        = ((- 1, - 1, 1 / 2, 1 / 2), ([0], [0], [0], [0]))
   \<and> masked masked_scenario_2d 0 \<and> length (weights masked_scenario_2d) = 1
   \<and> user_range (pos0Range masked_scenario_2d) = None
   \<and> user_range (pos1Range masked_scenario_2d) = None
   \<and> range2d calc_upper_bound masked_scenario_2d (- 1, - 1, 1 / 2, 1 / 2)
        = (0, - 1, calc_upper_bound (- 1), 1 / 2, 1 / 2, calc_upper_bound (1 / 2))"
proof -
  have f: "masked masked_scenario 0" "length (weights masked_scenario) = 1"
    "user_range (pos0Range masked_scenario) = None" "pos0 masked_scenario ! 0 = - 1"
    by (simp_all add: masked_scenario_def call1d_def masked_def user_range_def)
  have g: "masked masked_scenario_2d 0" "length (weights masked_scenario_2d) = 1"
    "user_range (pos0Range masked_scenario_2d) = None"
    "user_range (pos1Range masked_scenario_2d) = None"
    "\<not> allow_pos0_neg masked_scenario_2d"
    by (simp_all add: masked_scenario_2d_def call2d_def masked_def user_range_def)
  note t = first_pixel_seed [where a = masked_scenario and smin = "- 1" and smax = "- 1"
      and lo = "[0]" and up = "[0]" and ub = calc_upper_bound and pi_c = M_PI
      and ?a2.0 = masked_scenario_2d and ?c1.0 = "[1 / 2]" and ?d1.0 = "[1 / 10]"
      and ?s0min.0 = "- 1" and ?s0max.0 = "- 1" and ?s1min.0 = "1 / 2" and ?s1max.0 = "1 / 2"
      and arrs = "([0], [0], [0], [0])"]
  have 1: "range1d calc_upper_bound masked_scenario (- 1) (- 1) = (0, - 1, calc_upper_bound (- 1))"
    using t masked_scenario_scan f(3) by simp
  have 2: "range2d calc_upper_bound masked_scenario_2d (- 1, - 1, 1 / 2, 1 / 2)
      = (0, - 1, calc_upper_bound (- 1), 1 / 2, 1 / 2, calc_upper_bound (1 / 2))"
    using t masked_scenario_2d_scan g(3,4,5) by simp
  show ?thesis using masked_scenario_scan masked_scenario_2d_scan f g(1-4) 1 2 by simp
qed

theorem first_pixel_seed_counterexample:
  "masked masked_scenario 0 \<and> pos0Range masked_scenario = None
   \<and> pos0 masked_scenario ! 0 = - 1
   \<and> (case scan1d masked_scenario of (smin, smax, lo, up) \<Rightarrow>
         range1d calc_upper_bound masked_scenario smin smax) = (0, - 1, calc_upper_bound (- 1))
   \<and> \<not> (0 \<le> pos0 masked_scenario ! 0)"
  by (simp add: masked_scenario_def eval_defs)

subsection \<open>Dummy exclusion\<close>

text \<open>
  Claim C3 at the dummy scenario: a dummy value of 5, no \<^verbatim>\<open>delta_dummy\<close>, and one pixel whose
  raw weight is 5. \<^verbatim>\<open>histoBBox2d\<close> accumulates the pixel (count 1, sum 5): the branch for a
  dummy without \<^verbatim>\<open>delta_dummy\<close>, lines 364--365, sets \<^verbatim>\<open>cdummy\<close> and leaves
  \<^verbatim>\<open>check_dummy\<close> false. \<^verbatim>\<open>histoBBox1d\<close>, whose branch (lines 127--130) sets
  \<^verbatim>\<open>check_dummy\<close> and a tolerance of 0, excludes the same pixel.
\<close>

theorem dummy_without_tolerance:
  "dummy dummy_scenario = Some 5 \<and> delta_dummy dummy_scenario = None
   \<and> weights dummy_scenario = [5]
   \<and> histoBBox2d calc_upper_bound M_PI dummy_scenario =
       Inr \<lparr>r2_outMerge = [[5]], r2_edges0 = [167772171 / 167772160],
            r2_edges1 = [1 / 167772160], r2_outData = [[5]], r2_outCount = [[1]]\<rparr>
   \<and> dummy dummy_scenario_1d = Some 5 \<and> delta_dummy dummy_scenario_1d = None
   \<and> weights dummy_scenario_1d = [5]
   \<and> (case histoBBox1d calc_upper_bound dummy_scenario_1d of
         Inl e \<Rightarrow> False
       | Inr r \<Rightarrow> r_outCount r = [0, 0] \<and> r_outData r = [0, 0] \<and> r_outMerge r = [5, 5])"
  by (simp add: dummy_scenario_def dummy_scenario_1d_def eval_defs)

subsection \<open>Spreading one pixel over the bins of one axis\<close>

lemma add_at_length [simp]: "length (add_at xs i v) = length xs"
  by (simp add: add_at_def)

lemma sum_list_update_real:
  "k < length xs \<Longrightarrow> sum_list (xs[k := x]) = sum_list xs + x - (xs ! k :: real)"
  by (induction xs arbitrary: k) (auto split: nat.split)

lemma add_at_sum:
  assumes "0 \<le> i" and "i < int (length xs)"
  shows "sum_list (add_at xs i v) = sum_list xs + v"
proof -
  have "nat i < length xs" using assms by linarith
  then show ?thesis by (simp add: add_at_def sum_list_update_real)
qed

lemma add_at_nonneg:
  assumes "0 \<le> v" and "\<forall>b<length xs. 0 \<le> xs ! b"
  shows "\<forall>b<length xs. 0 \<le> add_at xs i v ! b"
proof (intro allI impI)
  fix b
  assume b: "b < length xs"
  show "0 \<le> add_at xs i v ! b"
  proof (cases "b = nat i")
    case True
    then show ?thesis using assms b by (simp add: add_at_def)
  next
    case False
    then show ?thesis using assms b by (simp add: add_at_def)
  qed
qed

lemma interior_fold:
  assumes "\<forall>i\<in>set is. 0 \<le> i \<and> i < int (length c)"
  shows "\<exists>d' c'.
     fold (\<lambda>i (outData, outCount).
             (let outCount = add_at outCount i y; outData = add_at outData i x
              in (outData, outCount))) is (d, c) = (d', c')
     \<and> length d' = length d \<and> length c' = length c
     \<and> sum_list c' = sum_list c + real (length is) * y
     \<and> (0 \<le> y \<longrightarrow> (\<forall>b<length c. 0 \<le> c ! b) \<longrightarrow> (\<forall>b<length c. 0 \<le> c' ! b))"
  using assms
proof (induction "is" arbitrary: d c)
  case Nil
  then show ?case by simp
next
  case (Cons i rest)
  let ?c1 = "add_at c i y" and ?d1 = "add_at d i x"
  have r: "\<forall>j\<in>set rest. 0 \<le> j \<and> j < int (length ?c1)" using Cons.prems by simp
  from Cons.IH [OF r, of ?d1] obtain d' c' where
    f: "fold (\<lambda>i (outData, outCount).
             (let outCount = add_at outCount i y; outData = add_at outData i x
              in (outData, outCount))) rest (?d1, ?c1) = (d', c')"
    and l: "length d' = length ?d1" "length c' = length ?c1"
    and s: "sum_list c' = sum_list ?c1 + real (length rest) * y"
    and n: "0 \<le> y \<longrightarrow> (\<forall>b<length ?c1. 0 \<le> ?c1 ! b) \<longrightarrow> (\<forall>b<length ?c1. 0 \<le> c' ! b)"
    by blast
  have s1: "sum_list ?c1 = sum_list c + y"
    using Cons.prems by (intro add_at_sum) simp_all
  have n1: "0 \<le> y \<longrightarrow> (\<forall>b<length c. 0 \<le> c ! b) \<longrightarrow> (\<forall>b<length c. 0 \<le> c' ! b)"
    using n add_at_nonneg [of y c i] by simp
  show ?case using f l s s1 n1 by (simp add: algebra_simps)
qed

lemma clip_bins:
  assumes "fmin \<le> fmax" and "\<not> (fmax < 0 \<or> fmin \<ge> real n)" and n: "0 < n"
  shows "0 \<le> clip_bin0_min fmin" and "clip_bin0_min fmin \<le> clip_bin0_max n fmax"
    and "clip_bin0_max n fmax < int n"
    and "fmin < real_of_int (clip_bin0_min fmin + 1)"
    and "real_of_int (clip_bin0_max n fmax) \<le> fmax"
    and "clip_bin0_min fmin \<noteq> clip_bin0_max n fmax \<Longrightarrow> fmin < fmax"
proof -
  show "0 \<le> clip_bin0_min fmin"
    by (simp add: clip_bin0_min_def to_ssize_t_def)
  show "clip_bin0_max n fmax < int n"
    using assms n by (auto simp: clip_bin0_max_def to_ssize_t_def floor_less_iff)
  show "fmin < real_of_int (clip_bin0_min fmin + 1)"
    by (auto simp: clip_bin0_min_def to_ssize_t_def)
  show "real_of_int (clip_bin0_max n fmax) \<le> fmax"
    using assms n by (auto simp: clip_bin0_max_def to_ssize_t_def)
  show le: "clip_bin0_min fmin \<le> clip_bin0_max n fmax"
  proof (cases "fmin < 0")
    case True
    then show ?thesis
      using assms n by (auto simp: clip_bin0_min_def clip_bin0_max_def to_ssize_t_def)
  next
    case False
    then have "\<lfloor>fmin\<rfloor> \<le> \<lfloor>fmax\<rfloor>" "\<lfloor>fmin\<rfloor> < int n"
      using assms by (auto simp: floor_mono floor_less_iff)
    then show ?thesis
      using False assms by (auto simp: clip_bin0_min_def clip_bin0_max_def to_ssize_t_def)
  qed
  show "fmin < fmax" if "clip_bin0_min fmin \<noteq> clip_bin0_max n fmax"
  proof (rule ccontr)
    assume "\<not> fmin < fmax"
    then have "fmin = fmax" using assms by simp
    then have "clip_bin0_min fmin = clip_bin0_max n fmax"
      using assms by (auto simp: clip_bin0_min_def clip_bin0_max_def)
    then show False using that by simp
  qed
qed

lemma split1d_total:
  assumes f: "fmin \<le> fmax" and s: "\<not> (fmax < 0 \<or> fmin \<ge> real n)" and n: "0 < n"
    and l: "length c = n" "length d = n"
  shows "\<exists>d' c'.
     split1d (d, c) data fmin fmax (clip_bin0_min fmin) (clip_bin0_max n fmax) = Inr (d', c')
     \<and> length d' = n \<and> length c' = n \<and> sum_list c' = sum_list c + 1
     \<and> ((\<forall>b<n. 0 \<le> c ! b) \<longrightarrow> (\<forall>b<n. 0 \<le> c' ! b))"
proof -
  let ?bmin = "clip_bin0_min fmin" and ?bmax = "clip_bin0_max n fmax"
  note cb = clip_bins [OF f s n]
  show ?thesis
  proof (cases "?bmin = ?bmax")
    case True
    have "sum_list (add_at c ?bmin 1) = sum_list c + 1"
      using cb l True by (intro add_at_sum) simp_all
    moreover have "(\<forall>b<n. 0 \<le> c ! b) \<longrightarrow> (\<forall>b<n. 0 \<le> add_at c ?bmin 1 ! b)"
      using add_at_nonneg [of 1 c ?bmin] l by simp
    ultimately show ?thesis using True l by (simp add: split1d_def)
  next
    case False
    then have lt: "fmin < fmax" and blt: "?bmin < ?bmax" using cb by simp_all
    define dA where "dA = 1 / (fmax - fmin)"
    define dL where "dL = real_of_int (?bmin + 1) - fmin"
    define dR where "dR = fmax - real_of_int ?bmax"
    define c1 where "c1 = add_at (add_at c ?bmin (dA * dL)) ?bmax (dA * dR)"
    define d1 where "d1 = add_at (add_at d ?bmin (data * dA * dL)) ?bmax (data * dA * dR)"
    have pos: "0 < dA" "0 < dL" "0 \<le> dR" using lt cb by (simp_all add: dA_def dL_def dR_def)
    have c1s: "sum_list c1 = sum_list c + dA * dL + dA * dR"
      using cb l blt by (simp add: c1_def add_at_sum)
    have c1n: "(\<forall>b<n. 0 \<le> c ! b) \<longrightarrow> (\<forall>b<n. 0 \<le> c1 ! b)"
      using add_at_nonneg [of "dA * dL" c ?bmin]
        add_at_nonneg [of "dA * dR" "add_at c ?bmin (dA * dL)" ?bmax] pos l
      by (simp add: c1_def)
    have len1: "length c1 = n" "length d1 = n" using l by (simp_all add: c1_def d1_def)
    have rng: "\<forall>i\<in>set [?bmin + 1..?bmax - 1]. 0 \<le> i \<and> i < int (length c1)"
      using cb len1 by auto
    from interior_fold [OF rng, of dA "data * dA" d1] obtain d' c' where
      fo: "fold (\<lambda>i (outData, outCount).
             (let outCount = add_at outCount i dA; outData = add_at outData i (data * dA)
              in (outData, outCount))) [?bmin + 1..?bmax - 1] (d1, c1) = (d', c')"
      and len': "length d' = length d1" "length c' = length c1"
      and s': "sum_list c' = sum_list c1 + real (length [?bmin + 1..?bmax - 1]) * dA"
      and n': "0 \<le> dA \<longrightarrow> (\<forall>b<length c1. 0 \<le> c1 ! b) \<longrightarrow> (\<forall>b<length c1. 0 \<le> c' ! b)"
      by blast
    have cnt: "real (length [?bmin + 1..?bmax - 1]) = real_of_int (?bmax - ?bmin - 1)"
      using blt by simp
    have "dL + dR + real_of_int (?bmax - ?bmin - 1) = fmax - fmin"
      by (simp add: dL_def dR_def)
    moreover have "dA * (fmax - fmin) = 1" using lt by (simp add: dA_def)
    ultimately have one: "dA * dL + dA * dR + real_of_int (?bmax - ?bmin - 1) * dA = 1"
      by (metis distrib_left mult.commute)
    have total: "sum_list c' = sum_list c + 1"
      using s' c1s cnt one by simp
    have nn: "(\<forall>b<n. 0 \<le> c ! b) \<longrightarrow> (\<forall>b<n. 0 \<le> c' ! b)"
      using n' c1n pos len1 by simp
    have run: "split1d (d, c) data fmin fmax ?bmin ?bmax =
        (if ?bmin + 1 < ?bmax then Inr (d', c') else Inr (d1, c1))"
      using False lt fo
      by (simp add: split1d_def fdiv_def Let_def dA_def dL_def dR_def c1_def d1_def)
    show ?thesis
    proof (cases "?bmin + 1 < ?bmax")
      case True
      then show ?thesis using run len' len1 total nn by simp
    next
      case False
      then have "?bmax - ?bmin - 1 = 0" using blt by simp
      then have "sum_list c1 = sum_list c + 1" using c1s one by simp
      then show ?thesis using False run len1 c1n by simp
    qed
  qed
qed

subsection \<open>The accumulation loop of histoBBox1d\<close>

lemma get_bin_number_pos: "0 < delta \<Longrightarrow> get_bin_number x mn delta = Inr ((x - mn) / delta)"
  by (simp add: get_bin_number_def fdiv_def)

lemma accumulate1d_step_skip:
  assumes "\<not> valid_pixel a dm idx \<or> outside_pos1 p1 idx"
  shows "accumulate1d_step a dm lo up p1 pos0_min delta idx st = Inr st"
  using assms
  by (cases dm) (auto simp: accumulate1d_step_def valid_pixel_def dummy_excluded_def Let_def)

lemma accumulate1d_step_valid:
  assumes "valid_pixel a dm idx" and "\<not> outside_pos1 p1 idx" and "0 < delta"
  shows "accumulate1d_step a dm lo up p1 pos0_min delta idx st =
     (if (up ! idx - pos0_min) / delta < 0 \<or> (lo ! idx - pos0_min) / delta \<ge> real (bins a)
      then Inr st
      else ebind (corrections a idx (weights a ! idx)) (\<lambda>data.
             split1d st data ((lo ! idx - pos0_min) / delta) ((up ! idx - pos0_min) / delta)
               (clip_bin0_min ((lo ! idx - pos0_min) / delta))
               (clip_bin0_max (bins a) ((up ! idx - pos0_min) / delta))))"
  using assms
  by (cases dm)
    (auto simp: accumulate1d_step_def valid_pixel_def dummy_excluded_def Let_def
      get_bin_number_pos)

text \<open>
  One pass of the loop body keeps the shape and the sign of the counts, and adds 1 to their
  total exactly when the pixel is valid, passes the axis-1 test and is not skipped by the
  test of line 207.
\<close>

lemma accumulate1d_step_count:
  assumes run: "accumulate1d_step a dm lo up p1 pos0_min delta idx (d, c) = Inr (d', c')"
    and delta: "0 < delta" and fp: "lo ! idx \<le> up ! idx" and n: "0 < bins a"
    and l: "length c = bins a" "length d = bins a"
  shows "length d' = bins a \<and> length c' = bins a
     \<and> sum_list c' = sum_list c
         + (if valid_pixel a dm idx \<and> \<not> outside_pos1 p1 idx
               \<and> \<not> ((up ! idx - pos0_min) / delta < 0
                     \<or> (lo ! idx - pos0_min) / delta \<ge> real (bins a))
            then 1 else 0)
     \<and> ((\<forall>b<bins a. 0 \<le> c ! b) \<longrightarrow> (\<forall>b<bins a. 0 \<le> c' ! b))"
proof (cases "valid_pixel a dm idx \<and> \<not> outside_pos1 p1 idx")
  case False
  then have "accumulate1d_step a dm lo up p1 pos0_min delta idx (d, c) = Inr (d, c)"
    by (intro accumulate1d_step_skip) auto
  then show ?thesis using run l False by auto
next
  case True
  let ?fmin = "(lo ! idx - pos0_min) / delta" and ?fmax = "(up ! idx - pos0_min) / delta"
  note v = accumulate1d_step_valid [OF conjunct1 [OF True] conjunct2 [OF True] delta,
      of lo up pos0_min "(d, c)"]
  show ?thesis
  proof (cases "?fmax < 0 \<or> ?fmin \<ge> real (bins a)")
    case skip: True
    then have "accumulate1d_step a dm lo up p1 pos0_min delta idx (d, c) = Inr (d, c)"
      using v by simp
    then show ?thesis using run l skip by auto
  next
    case inside: False
    from run v inside obtain data where
      sp: "split1d (d, c) data ?fmin ?fmax (clip_bin0_min ?fmin) (clip_bin0_max (bins a) ?fmax)
          = Inr (d', c')"
      by (auto simp: ebind_eq_Inr)
    have le: "?fmin \<le> ?fmax" using fp delta by (simp add: divide_right_mono)
    from split1d_total [OF le inside n l, of data] sp
    show ?thesis using True inside by auto
  qed
qed

lemma accumulate1d_count:
  assumes run: "for_each xs (accumulate1d_step a dm lo up p1 pos0_min delta) (d, c) = Inr (d', c')"
    and delta: "0 < delta" and fp: "\<forall>i\<in>set xs. lo ! i \<le> up ! i" and n: "0 < bins a"
    and l: "length c = bins a" "length d = bins a" and nn: "\<forall>b<bins a. 0 \<le> c ! b"
  shows "length c' = bins a \<and> (\<forall>b<bins a. 0 \<le> c' ! b)
     \<and> sum_list c' = sum_list c
         + real (length (filter (\<lambda>i. valid_pixel a dm i \<and> \<not> outside_pos1 p1 i
               \<and> \<not> ((up ! i - pos0_min) / delta < 0
                     \<or> (lo ! i - pos0_min) / delta \<ge> real (bins a))) xs))"
proof -
  let ?P = "\<lambda>st. length (fst st) = bins a \<and> length (snd st) = bins a
      \<and> (\<forall>b<bins a. 0 \<le> snd st ! b)"
  let ?k = "\<lambda>i. valid_pixel a dm i \<and> \<not> outside_pos1 p1 i
      \<and> \<not> ((up ! i - pos0_min) / delta < 0 \<or> (lo ! i - pos0_min) / delta \<ge> real (bins a))"
  let ?c = "\<lambda>i. if ?k i then 1 else (0::real)"
  have "?P (d', c') \<and> sum_list (snd (d', c')) = sum_list (snd (d, c)) + sum_list (map ?c xs)"
  proof (rule for_each_total [OF run, where P = ?P and m = "\<lambda>st. sum_list (snd st)" and c = ?c])
    show "?P (d, c)" using l nn by simp
    fix i t t'
    assume i: "i \<in> set xs" and t: "?P t"
      and b: "accumulate1d_step a dm lo up p1 pos0_min delta i t = Inr t'"
    obtain d1 c1 d2 c2 where s: "t = (d1, c1)" "t' = (d2, c2)"
      by (cases t, cases t') auto
    from accumulate1d_step_count [OF b [unfolded s] delta _ n] fp i t s
    show "?P t' \<and> sum_list (snd t') = sum_list (snd t) + ?c i"
      by auto
  qed
  moreover have "sum_list (map ?c xs) = real (length (filter ?k xs))"
    by (induction xs) simp_all
  ultimately show ?thesis by simp
qed

lemma for_each_pure: "for_each xs (\<lambda>i s. Inr (f i s)) s = Inr (fold f xs s)"
  by (induction xs arbitrary: s) simp_all

lemma scan1d_arrays:
  assumes sc: "scan1d a = (smin, smax, lo, up)"
  shows "length lo = length (weights a) \<and> length up = length (weights a)
     \<and> (\<forall>i<length (weights a).
           if masked a i then lo ! i = 0 \<and> up ! i = 0
           else lo ! i = pos0 a ! i - delta_pos0 a ! i \<and> up ! i = pos0 a ! i + delta_pos0 a ! i)"
proof -
  let ?n = "length (weights a)"
  let ?s0 = "(pos0 a ! 0, pos0 a ! 0, replicate ?n (0::real), replicate ?n (0::real))"
  let ?lo = "\<lambda>s :: real \<times> real \<times> real list \<times> real list. fst (snd (snd s))"
  let ?up = "\<lambda>s :: real \<times> real \<times> real list \<times> real list. snd (snd (snd s))"
  let ?I = "\<lambda>s. length (?lo s) = ?n \<and> length (?up s) = ?n
      \<and> (\<forall>i<?n. masked a i \<longrightarrow> ?lo s ! i = 0 \<and> ?up s ! i = 0)"
  let ?Q = "\<lambda>i s. \<not> masked a i \<longrightarrow>
      ?lo s ! i = pos0 a ! i - delta_pos0 a ! i \<and> ?up s ! i = pos0 a ! i + delta_pos0 a ! i"
  have run: "for_each [0..<?n] (\<lambda>i s. Inr (scan1d_step a i s)) ?s0 = Inr (smin, smax, lo, up)"
    using sc by (simp add: for_each_pure scan1d_def Let_def)
  have "?I (smin, smax, lo, up) \<and> (\<forall>i\<in>set [0..<?n]. ?Q i (smin, smax, lo, up))
      \<and> (\<forall>k. k \<notin> set [0..<?n] \<longrightarrow> ?Q k ?s0 \<longrightarrow> ?Q k (smin, smax, lo, up))"
  proof (rule for_each_establish [OF run, where I = ?I and Q = ?Q])
    show "distinct [0..<?n]" by simp
    show "?I ?s0" by simp
    fix i t t'
    assume i: "i \<in> set [0..<?n]" and t: "?I t" and b: "Inr (scan1d_step a i t) = Inr t'"
    obtain mn mx l u where tt: "t = (mn, mx, l, u)" by (cases t) auto
    show "?I t' \<and> ?Q i t' \<and> (\<forall>k. k \<noteq> i \<longrightarrow> ?Q k t \<longrightarrow> ?Q k t')"
    proof (cases "masked a i")
      case True
      then have "t' = t" using b by (simp add: scan1d_step_def tt)
      then show ?thesis using t True by simp
    next
      case False
      then have "?lo t' = l[i := pos0 a ! i - delta_pos0 a ! i]"
        "?up t' = u[i := pos0 a ! i + delta_pos0 a ! i]"
        using b by (auto simp: scan1d_step_def tt Let_def)
      then show ?thesis using t i False by (auto simp: tt nth_list_update)
    qed
  qed
  then show ?thesis by auto
qed

lemma meets_range:
  assumes "pos0_min < pos0_max" and "0 < n"
  shows "\<not> ((hi - pos0_min) / ((pos0_max - pos0_min) / real n) < 0
           \<or> (lo - pos0_min) / ((pos0_max - pos0_min) / real n) \<ge> real n)
     \<longleftrightarrow> pos0_min \<le> hi \<and> lo < pos0_max"
proof -
  define delta where "delta = (pos0_max - pos0_min) / real n"
  have d: "0 < delta" using assms by (simp add: delta_def)
  have nd: "real n * delta = pos0_max - pos0_min" using assms by (simp add: delta_def)
  have "(hi - pos0_min) / delta < 0 \<longleftrightarrow> hi < pos0_min"
    using d by (simp add: divide_less_0_iff)
  moreover have "(lo - pos0_min) / delta \<ge> real n \<longleftrightarrow> lo \<ge> pos0_max"
    using d nd by (simp add: le_divide_eq) 
  ultimately show ?thesis unfolding delta_def by auto
qed

text \<open>
  Claim C2, as amended. After \<^verbatim>\<open>histoBBox1d\<close> has returned, for half-widths that are not
  negative and a bin range \<open>pos0_min < pos0_max\<close>: every bin of \<^verbatim>\<open>outCount\<close> is at least 0,
  and the sum of \<^verbatim>\<open>outCount\<close> over all bins is the number of counted pixels, that is, of the
  unmasked non-dummy pixels that pass the test on axis 1 and whose footprint meets the bin
  range \<open>[pos0_min, pos0_max)\<close>. Each counted pixel adds exactly 1 in total, also when the
  range clips its footprint (the part beyond the range goes to the first or the last bin),
  and the accumulation loop passes over each pixel once.
\<close>

theorem count_conservation:
  assumes r: "histoBBox1d ub a = Inr r"
    and sc: "scan1d a = (smin, smax, lo, up)"
    and rg: "range1d ub a smin smax = (pos0_min, pos0_maxin, pos0_max)"
    and p1: "pos1_check1d ub a (length (weights a)) = Inr p1"
    and w: "pos0_min < pos0_max"
    and hw: "\<forall>i<length (weights a). 0 \<le> delta_pos0 a ! i"
  shows "length (r_outCount r) = bins a \<and> (\<forall>b<bins a. 0 \<le> r_outCount r ! b)
     \<and> sum_list (r_outCount r)
         = real (length (filter (counted1d a (dummy1d a) p1 pos0_min pos0_max)
                           [0..<length (weights a)]))"
proof -
  let ?n = "length (weights a)"
  let ?delta = "(pos0_max - pos0_min) / real (bins a)"
  from histoBBox1d_InrD [OF r] sc rg p1 obtain sumData sumCount where
    b: "1 < bins a"
    and run: "for_each [0..<?n] (accumulate1d_step a (dummy1d a) lo up p1 pos0_min ?delta)
        (replicate (bins a) 0, replicate (bins a) 0) = Inr (sumData, sumCount)"
    and out: "r_outCount r = sumCount"
    by auto
  have n: "0 < bins a" using b by simp
  have delta: "0 < ?delta" using w n by simp
  note arr = scan1d_arrays [OF sc]
  have fp: "\<forall>i\<in>set [0..<?n]. lo ! i \<le> up ! i"
  proof
    fix i assume "i \<in> set [0..<?n]"
    then have i: "i < ?n" by simp
    show "lo ! i \<le> up ! i"
      using arr i hw by (cases "masked a i") (auto split: if_splits)
  qed
  let ?k = "\<lambda>i. valid_pixel a (dummy1d a) i \<and> \<not> outside_pos1 p1 i
      \<and> \<not> ((up ! i - pos0_min) / ?delta < 0 \<or> (lo ! i - pos0_min) / ?delta \<ge> real (bins a))"
  have z: "sum_list (replicate (bins a) (0::real)) = 0"
    by (simp add: sum_list_replicate)
  have "length sumCount = bins a \<and> (\<forall>b<bins a. 0 \<le> sumCount ! b)
      \<and> sum_list sumCount
          = sum_list (replicate (bins a) 0) + real (length (filter ?k [0..<?n]))"
    by (rule accumulate1d_count [OF run delta fp n]) simp_all
  then have c: "length sumCount = bins a" "\<forall>b<bins a. 0 \<le> sumCount ! b"
    "sum_list sumCount = real (length (filter ?k [0..<?n]))"
    unfolding z by simp_all
  have "filter ?k [0..<?n] = filter (counted1d a (dummy1d a) p1 pos0_min pos0_max) [0..<?n]"
  proof (rule filter_cong [OF refl])
    fix i assume "i \<in> set [0..<?n]"
    then have i: "i < ?n" by simp
    show "?k i = counted1d a (dummy1d a) p1 pos0_min pos0_max i"
    proof (cases "masked a i")
      case True
      then show ?thesis by (simp add: counted1d_def valid_pixel_def)
    next
      case False
      then have "lo ! i = pos0 a ! i - delta_pos0 a ! i" "up ! i = pos0 a ! i + delta_pos0 a ! i"
        using arr i by auto
      then show ?thesis
        using meets_range [OF w n, of "up ! i" "lo ! i"] by (auto simp: counted1d_def)
    qed
  qed
  then show ?thesis using c out by simp
qed

lemma clipped_scenario_result:
  "histoBBox1d calc_upper_bound clipped_scenario = Inr clipped_result"
  by (simp add: clipped_scenario_def clipped_result_def eval_defs)

theorem count_conservation_witness:
  "histoBBox1d calc_upper_bound clipped_scenario = Inr clipped_result
   \<and> scan1d clipped_scenario = (1, 3, [1], [3])
   \<and> range1d calc_upper_bound clipped_scenario 1 3 = (0, 2, calc_upper_bound 2)
   \<and> pos1_check1d calc_upper_bound clipped_scenario (length (weights clipped_scenario))
       = Inr (False, [], [], 0, 0)
   \<and> 0 < calc_upper_bound 2
   \<and> length (weights clipped_scenario) = 1 \<and> 0 \<le> delta_pos0 clipped_scenario ! 0
   \<and> counted1d clipped_scenario (dummy1d clipped_scenario) (False, [], [], 0, 0)
        0 (calc_upper_bound 2) 0
   \<and> length (r_outCount clipped_result) = bins clipped_scenario
   \<and> 0 \<le> r_outCount clipped_result ! 0 \<and> 0 \<le> r_outCount clipped_result ! 1
   \<and> sum_list (r_outCount clipped_result) = 1"
proof -
  have sc: "scan1d clipped_scenario = (1, 3, [1], [3])"
    by (simp add: clipped_scenario_def eval_defs)
  have rg: "range1d calc_upper_bound clipped_scenario 1 3 = (0, 2, calc_upper_bound 2)"
    by (simp add: clipped_scenario_def call1d_def range1d_def user_range_def py_min_def
        py_max_def)
  have p1: "pos1_check1d calc_upper_bound clipped_scenario (length (weights clipped_scenario))
      = Inr (False, [], [], 0, 0)"
    by (simp add: clipped_scenario_def call1d_def pos1_check1d_def user_range_def)
  have w: "0 < calc_upper_bound 2" by (simp add: calc_upper_bound_def)
  have l: "length (weights clipped_scenario) = 1" "0 \<le> delta_pos0 clipped_scenario ! 0"
    "bins clipped_scenario = 2"
    by (simp_all add: clipped_scenario_def call1d_def)
  have hw: "\<forall>i<length (weights clipped_scenario). 0 \<le> delta_pos0 clipped_scenario ! i"
    using l by simp
  have k: "counted1d clipped_scenario (dummy1d clipped_scenario) (False, [], [], 0, 0)
      0 (calc_upper_bound 2) 0"
    by (simp add: counted1d_def valid_pixel_def dummy_excluded_def masked_def dummy1d_def
        outside_pos1_def clipped_scenario_def call1d_def calc_upper_bound_def)
  have f: "filter (counted1d clipped_scenario (dummy1d clipped_scenario) (False, [], [], 0, 0)
      0 (calc_upper_bound 2)) [0..<length (weights clipped_scenario)] = [0]"
    using k l by simp
  from count_conservation [OF clipped_scenario_result sc rg p1 w hw]
  have "length (r_outCount clipped_result) = bins clipped_scenario"
    and "\<forall>b<bins clipped_scenario. 0 \<le> r_outCount clipped_result ! b"
    and "sum_list (r_outCount clipped_result) = 1"
    by (simp_all add: f)
  then show ?thesis using clipped_scenario_result sc rg p1 w l k by simp
qed

theorem count_conservation_counterexample:
  "histoBBox1d calc_upper_bound clipped_scenario = Inr clipped_result
   \<and> mask clipped_scenario = None \<and> dummy clipped_scenario = None
   \<and> pos0 clipped_scenario ! 0 - delta_pos0 clipped_scenario ! 0 = 1
   \<and> pos0 clipped_scenario ! 0 + delta_pos0 clipped_scenario ! 0 = 3
   \<and> sum_list (r_outCount clipped_result) = 1
   \<and> overlap_fraction 1 3 0 2 = 1 / 2
   \<and> overlap_fraction 1 3 0 (calc_upper_bound 2) < 1"
  using clipped_scenario_result
  by (simp add: clipped_scenario_def call1d_def clipped_result_def overlap_fraction_def
      calc_upper_bound_def)

subsection \<open>Spreading one pixel over the bins of two axes\<close>

lemma shaped_update:
  assumes "shaped m n arr" and "length row = n"
  shows "shaped m n (arr[i := row])"
proof -
  have "length (arr[i := row] ! k) = n" if "k < length arr" for k
    using assms that by (cases "k = i") (simp_all add: shaped_def list_all_length)
  then show ?thesis using assms by (simp add: shaped_def list_all_length)
qed

lemma zeros2_shaped: "shaped m n (zeros2 m n)"
  by (simp add: shaped_def zeros2_def list_all_length)

lemma total2_update:
  assumes "i < length arr"
  shows "total2 (arr[i := row]) = total2 arr + sum_list row - sum_list (arr ! i)"
  using assms by (simp add: total2_def map_update sum_list_update_real)

lemma add_at2_inside:
  assumes s: "shaped m n arr" and i: "0 \<le> i" "i < int m" and j: "0 \<le> j" "j < int n"
  shows "\<exists>arr'. add_at2 arr i j v = Inr arr' \<and> shaped m n arr' \<and> total2 arr' = total2 arr + v"
proof -
  have i': "nat i < m" and j': "nat j < n" using i j by linarith+
  have li: "length arr = m" and lj: "length (arr ! nat i) = n"
    using s i' by (simp_all add: shaped_def list_all_length)
  let ?row = "(arr ! nat i)[nat j := arr ! nat i ! nat j + v]"
  have run: "add_at2 arr i j v = Inr (arr[nat i := ?row])"
    using i j li lj by (simp add: add_at2_def wrap_index_def)
  have "sum_list ?row = sum_list (arr ! nat i) + v"
    using j' lj by (simp add: sum_list_update_real)
  then have "total2 (arr[nat i := ?row]) = total2 arr + v"
    using i' li by (simp add: total2_update)
  moreover have "shaped m n (arr[nat i := ?row])"
    using s lj by (intro shaped_update) simp_all
  ultimately show ?thesis using run by simp
qed

lemma deposits_deposit:
  assumes "shaped m n (fst st)" and "shaped m n (snd st)"
    and "0 \<le> i" "i < int m" "0 \<le> j" "j < int n"
  shows "deposits m n st c (deposit st i j c d)"
proof -
  obtain outData outCount where st: "st = (outData, outCount)" by (cases st)
  from add_at2_inside [OF assms(2) assms(3-6), of c] st obtain outCount' where
    c: "add_at2 outCount i j c = Inr outCount'" "shaped m n outCount'"
      "total2 outCount' = total2 outCount + c"
    by auto
  from add_at2_inside [OF assms(1) assms(3-6), of d] st obtain outData' where
    d: "add_at2 outData i j d = Inr outData'" "shaped m n outData'"
    by auto
  show ?thesis using c d by (simp add: deposits_def deposit_def st)
qed

lemma deposits_bind:
  assumes "deposits m n st c1 r"
    and "\<And>t. shaped m n (fst t) \<Longrightarrow> shaped m n (snd t) \<Longrightarrow> deposits m n t c2 (g t)"
  shows "deposits m n st (c1 + c2) (ebind r g)"
proof -
  from assms(1) obtain t where t: "r = Inr t" "shaped m n (fst t)" "shaped m n (snd t)"
    "total2 (snd t) = total2 (snd st) + c1"
    by (auto simp: deposits_def split: sum.splits)
  from assms(2) [OF t(2,3)] t show ?thesis
    by (auto simp: deposits_def split: sum.splits)
qed

lemma deposits_for_each:
  assumes "shaped m n (fst st)" and "shaped m n (snd st)"
    and "\<And>i t. i \<in> set xs \<Longrightarrow> shaped m n (fst t) \<Longrightarrow> shaped m n (snd t)
           \<Longrightarrow> deposits m n t c (body i t)"
  shows "deposits m n st (real (length xs) * c) (for_each xs body st)"
  using assms
proof (induction xs arbitrary: st)
  case Nil
  then show ?case by (simp add: deposits_def)
next
  case (Cons i rest)
  have "deposits m n st c (body i st)" using Cons.prems by simp
  then obtain t where t: "body i st = Inr t" "shaped m n (fst t)" "shaped m n (snd t)"
    "total2 (snd t) = total2 (snd st) + c"
    by (auto simp: deposits_def split: sum.splits)
  have "deposits m n t (real (length rest) * c) (for_each rest body t)"
    using Cons.prems(3) by (intro Cons.IH [OF t(2,3)]) simp
  then show ?case using t by (auto simp: deposits_def algebra_simps split: sum.splits)
qed

lemma floor_bins:
  assumes "0 \<le> fmin" "fmin \<le> fmax" "fmax < real n"
  shows "0 \<le> to_ssize_t fmin" "to_ssize_t fmin \<le> to_ssize_t fmax" "to_ssize_t fmax < int n"
    "fmin < real_of_int (to_ssize_t fmin + 1)" "real_of_int (to_ssize_t fmax) \<le> fmax"
    "to_ssize_t fmin \<noteq> to_ssize_t fmax \<Longrightarrow> fmin < fmax"
proof -
  show "0 \<le> to_ssize_t fmin" "to_ssize_t fmin \<le> to_ssize_t fmax" "to_ssize_t fmax < int n"
    "fmin < real_of_int (to_ssize_t fmin + 1)" "real_of_int (to_ssize_t fmax) \<le> fmax"
    using assms by (auto simp: to_ssize_t_def floor_mono floor_less_iff)
  show "fmin < fmax" if "to_ssize_t fmin \<noteq> to_ssize_t fmax"
  proof (rule ccontr)
    assume "\<not> fmin < fmax"
    then have "fmin = fmax" using assms by simp
    then show False using that by simp
  qed
qed


lemma split2d_total:
  assumes x: "0 \<le> f0min" "f0min \<le> f0max" "f0max < real m"
    and y: "0 \<le> f1min" "f1min \<le> f1max" "f1max < real n"
    and sh: "shaped m n (fst st)" "shaped m n (snd st)"
  shows "deposits m n st 1 (split2d st data f0min f0max f1min f1max)"
proof -
  let ?b0min = "to_ssize_t f0min" and ?b0max = "to_ssize_t f0max"
  let ?b1min = "to_ssize_t f1min" and ?b1max = "to_ssize_t f1max"
  let ?I = "[?b0min + 1..?b0max - 1]" and ?J = "[?b1min + 1..?b1max - 1]"
  let ?dL = "real_of_int (?b0min + 1) - f0min" and ?dR = "f0max - real_of_int ?b0max"
  let ?dD = "real_of_int (?b1min + 1) - f1min" and ?dU = "f1max - real_of_int ?b1max"
  note bx = floor_bins [OF x] and bz = floor_bins [OF y]
  have inI: "0 \<le> i \<and> i < int m" if "i \<in> set ?I" for i using that bx by auto
  have inJ: "0 \<le> j \<and> j < int n" if "j \<in> set ?J" for j using that bz by auto
  have w0: "?dL + ?dR + real_of_int (?b0max - ?b0min - 1) = f0max - f0min" by simp
  have w1: "?dD + ?dU + real_of_int (?b1max - ?b1min - 1) = f1max - f1min" by simp
  show ?thesis
  proof (cases "?b0min = ?b0max")
    case same0: True
    show ?thesis
    proof (cases "?b1min = ?b1max")
      case same1: True
      have "split2d st data f0min f0max f1min f1max = deposit st ?b0min ?b1min 1 data"
        using same0 same1 by (simp add: split2d_def Let_def)
      then show ?thesis using deposits_deposit [OF sh] bx bz by simp
    next
      case diff1: False
      then have lt: "f1min < f1max" and blt: "?b1min < ?b1max" using bz by simp_all
      let ?ooa = "1 / (f1max - f1min)"
      let ?chain = "ebind (deposit st ?b0min ?b1min (?ooa * ?dD) (data * ?ooa * ?dD)) (\<lambda>st.
          ebind (deposit st ?b0min ?b1max (?ooa * ?dU) (data * ?ooa * ?dU)) (\<lambda>st.
          for_each ?J (\<lambda>j st. deposit st ?b0min j ?ooa (data * ?ooa)) st))"
      have run: "split2d st data f0min f0max f1min f1max = ?chain"
        using same0 diff1 lt by (simp add: split2d_def Let_def fdiv_def)
      have "deposits m n st (?ooa * ?dD + (?ooa * ?dU + real (length ?J) * ?ooa)) ?chain"
        using bx bz blt
        by (intro deposits_bind deposits_deposit deposits_for_each sh) (simp_all add: inJ)
      moreover have "?ooa * ?dD + (?ooa * ?dU + real (length ?J) * ?ooa) = 1"
      proof -
        have "real (length ?J) = real_of_int (?b1max - ?b1min - 1)" using blt by simp
        then have "?ooa * ?dD + (?ooa * ?dU + real (length ?J) * ?ooa)
            = ?ooa * (?dD + ?dU + real_of_int (?b1max - ?b1min - 1))"
          by (simp only: algebra_simps)
        also have "\<dots> = ?ooa * (f1max - f1min)" by (simp only: w1)
        also have "\<dots> = 1" using lt by simp
        finally show ?thesis .
      qed
      ultimately show ?thesis by (simp only: run)
    qed
  next
    case diff0: False
    then have lt0: "f0min < f0max" and blt0: "?b0min < ?b0max" using bx by simp_all
    have cI: "real (length ?I) = real_of_int (?b0max - ?b0min - 1)" using blt0 by simp
    show ?thesis
    proof (cases "?b1min = ?b1max")
      case same1: True
      let ?ooa = "1 / (f0max - f0min)"
      let ?chain = "ebind (deposit st ?b0min ?b1min (?ooa * ?dL) (data * ?ooa * ?dL)) (\<lambda>st.
          ebind (deposit st ?b0max ?b1min (?ooa * ?dR) (data * ?ooa * ?dR)) (\<lambda>st.
          for_each ?I (\<lambda>i st. deposit st i ?b1min ?ooa (data * ?ooa)) st))"
      have run: "split2d st data f0min f0max f1min f1max = ?chain"
        using diff0 same1 lt0 by (simp add: split2d_def Let_def fdiv_def)
      have "deposits m n st (?ooa * ?dL + (?ooa * ?dR + real (length ?I) * ?ooa)) ?chain"
        using bx bz blt0
        by (intro deposits_bind deposits_deposit deposits_for_each sh) (simp_all add: inI)
      moreover have "?ooa * ?dL + (?ooa * ?dR + real (length ?I) * ?ooa) = 1"
      proof -
        have "?ooa * ?dL + (?ooa * ?dR + real (length ?I) * ?ooa)
            = ?ooa * (?dL + ?dR + real_of_int (?b0max - ?b0min - 1))"
          using cI by (simp only: algebra_simps)
        also have "\<dots> = ?ooa * (f0max - f0min)" by (simp only: w0)
        also have "\<dots> = 1" using lt0 by simp
        finally show ?thesis .
      qed
      ultimately show ?thesis by (simp only: run)
    next
      case diff1: False
      then have lt1: "f1min < f1max" and blt1: "?b1min < ?b1max" using bz by simp_all
      have cJ: "real (length ?J) = real_of_int (?b1max - ?b1min - 1)" using blt1 by simp
      let ?ooa = "1 / ((f0max - f0min) * (f1max - f1min))"
      let ?row = "\<lambda>i st.
          ebind (deposit st i ?b1min (?ooa * ?dD) (data * ?ooa * ?dD)) (\<lambda>st.
          ebind (for_each ?J (\<lambda>j st. deposit st i j ?ooa (data * ?ooa)) st) (\<lambda>st.
          deposit st i ?b1max (?ooa * ?dU) (data * ?ooa * ?dU)))"
      let ?col = "\<lambda>j st.
          ebind (deposit st ?b0min j (?ooa * ?dL) (data * ?ooa * ?dL)) (\<lambda>st.
          deposit st ?b0max j (?ooa * ?dR) (data * ?ooa * ?dR))"
      let ?chain =
        "ebind (deposit st ?b0min ?b1min (?ooa * ?dL * ?dD) (data * ?ooa * ?dL * ?dD)) (\<lambda>st.
         ebind (deposit st ?b0min ?b1max (?ooa * ?dL * ?dU) (data * ?ooa * ?dL * ?dU)) (\<lambda>st.
         ebind (deposit st ?b0max ?b1min (?ooa * ?dR * ?dD) (data * ?ooa * ?dR * ?dD)) (\<lambda>st.
         ebind (deposit st ?b0max ?b1max (?ooa * ?dR * ?dU) (data * ?ooa * ?dR * ?dU)) (\<lambda>st.
         ebind (for_each ?I ?row st) (\<lambda>st. for_each ?J ?col st)))))"
      have run: "split2d st data f0min f0max f1min f1max = ?chain"
        using diff0 diff1 lt0 lt1 by (simp add: split2d_def Let_def fdiv_def)
      let ?cr = "?ooa * ?dD + (real (length ?J) * ?ooa + ?ooa * ?dU)"
      let ?cc = "?ooa * ?dL + ?ooa * ?dR"
      have "deposits m n st
          (?ooa * ?dL * ?dD + (?ooa * ?dL * ?dU + (?ooa * ?dR * ?dD + (?ooa * ?dR * ?dU
             + (real (length ?I) * ?cr + real (length ?J) * ?cc))))) ?chain"
        using bx bz blt0 blt1
        by (intro deposits_bind deposits_deposit deposits_for_each sh) (simp_all add: inI inJ)
      moreover have "?ooa * ?dL * ?dD + (?ooa * ?dL * ?dU + (?ooa * ?dR * ?dD + (?ooa * ?dR * ?dU
             + (real (length ?I) * ?cr + real (length ?J) * ?cc)))) = 1"
      proof -
        have "?ooa * ?dL * ?dD + (?ooa * ?dL * ?dU + (?ooa * ?dR * ?dD + (?ooa * ?dR * ?dU
             + (real (length ?I) * ?cr + real (length ?J) * ?cc))))
            = ?ooa * ((?dL + ?dR + real_of_int (?b0max - ?b0min - 1))
                * (?dD + ?dU + real_of_int (?b1max - ?b1min - 1)))"
          unfolding cI cJ by (simp only: algebra_simps)
        also have "\<dots> = ?ooa * ((f0max - f0min) * (f1max - f1min))" by (simp only: w0 w1)
        also have "\<dots> = 1" using lt0 lt1 by simp
        finally show ?thesis .
      qed
      ultimately show ?thesis by (simp only: run)
    qed
  qed
qed

subsection \<open>Conservation of the count mass of a pixel\<close>

lemma accumulate2d_step_skip:
  assumes "\<not> valid_pixel a dm idx"
  shows "accumulate2d_step a dm lo0 up0 cpos1 dpos1 rng delta0 delta1 idx st = Inr st"
  using assms
  by (cases dm, cases rng)
    (auto simp: accumulate2d_step_def valid_pixel_def dummy_excluded_def Let_def)

lemma accumulate2d_step_valid:
  assumes "valid_pixel a dm idx" and "0 < delta0" and "0 < delta1"
    and "corrections a idx (weights a ! idx) = Inr data"
  shows "accumulate2d_step a dm lo0 up0 cpos1 dpos1 (pos0_min, pos0_maxin, pos1_min, pos1_maxin)
       delta0 delta1 idx st =
     (if up0 ! idx < pos0_min \<or> cpos1 ! idx + dpos1 ! idx < pos1_min
         \<or> lo0 ! idx > pos0_maxin \<or> cpos1 ! idx - dpos1 ! idx > pos1_maxin
      then Inr st
      else split2d st data
             ((max pos0_min (lo0 ! idx) - pos0_min) / delta0)
             ((min pos0_maxin (up0 ! idx) - pos0_min) / delta0)
             ((max pos1_min (cpos1 ! idx - dpos1 ! idx) - pos1_min) / delta1)
             ((min pos1_maxin (cpos1 ! idx + dpos1 ! idx) - pos1_min) / delta1))"
proof -
  have mm: "\<And>x y :: real. (if x < y then y else x) = max y x"
    "\<And>x y :: real. (if x > y then y else x) = min y x"
    by (simp_all add: max_def min_def)
  show ?thesis
    using assms
    by (cases dm)
      (auto simp: accumulate2d_step_def valid_pixel_def dummy_excluded_def Let_def
        get_bin_number_pos mm)
qed

text \<open>
  Where the bins reach beyond the active range, an unmasked, non-dummy pixel whose footprint
  lies fully inside the range adds fractions to \<^verbatim>\<open>outCount\<close> that sum to 1 over the bins it
  touches: the total of \<^verbatim>\<open>outCount\<close> after the pixel is the total before it plus 1, in
  \<^verbatim>\<open>histoBBox1d\<close> (left edge, interior bins and right edge, each times \<^verbatim>\<open>deltaA\<close>) and in
  \<^verbatim>\<open>histoBBox2d\<close> (four corners, four edge runs and the interior block, each times
  \<^verbatim>\<open>one_over_area\<close>). The arithmetic is exact, and the pixel's corrections are taken to be
  finite.
\<close>

lemma step_conservation:
  "(valid_pixel a dm idx \<and> \<not> outside_pos1 p1 idx
      \<and> inside1d lo up pos0_min delta (bins a) idx
      \<and> length c = bins a \<and> length d = bins a
      \<and> corrections a idx (weights a ! idx) = Inr data
    \<longrightarrow> (\<exists>d' c'. accumulate1d_step a dm lo up p1 pos0_min delta idx (d, c) = Inr (d', c')
           \<and> sum_list c' = sum_list c + 1))
   \<and> (valid_pixel a2 dm2 idx2
      \<and> inside2d lo0 up0 cpos1 dpos1 rng idx2 \<and> bins_cover rng delta0 delta1 m n
      \<and> shaped m n (fst st) \<and> shaped m n (snd st)
      \<and> corrections a2 idx2 (weights a2 ! idx2) = Inr data2
    \<longrightarrow> (\<exists>st'. accumulate2d_step a2 dm2 lo0 up0 cpos1 dpos1 rng delta0 delta1 idx2 st = Inr st'
           \<and> total2 (snd st') = total2 (snd st) + 1))"
proof (intro conjI impI)
  assume h: "valid_pixel a dm idx \<and> \<not> outside_pos1 p1 idx
      \<and> inside1d lo up pos0_min delta (bins a) idx
      \<and> length c = bins a \<and> length d = bins a
      \<and> corrections a idx (weights a ! idx) = Inr data"
  let ?fmin = "(lo ! idx - pos0_min) / delta" and ?fmax = "(up ! idx - pos0_min) / delta"
  from h have delta: "0 < delta" and fp: "pos0_min \<le> lo ! idx" "lo ! idx \<le> up ! idx"
    "up ! idx < pos0_min + real (bins a) * delta"
    by (simp_all add: inside1d_def)
  have f: "0 \<le> ?fmin" "?fmin \<le> ?fmax" "?fmax < real (bins a)"
    using delta fp by (simp_all add: divide_right_mono pos_divide_less_eq)
  then have ns: "\<not> (?fmax < 0 \<or> ?fmin \<ge> real (bins a))" by auto
  have n: "0 < bins a" using f by (cases "bins a") auto
  have run: "accumulate1d_step a dm lo up p1 pos0_min delta idx (d, c) =
      split1d (d, c) data ?fmin ?fmax (clip_bin0_min ?fmin) (clip_bin0_max (bins a) ?fmax)"
    using h ns accumulate1d_step_valid [of a dm idx p1 delta lo up pos0_min "(d, c)"] delta
    by simp
  from split1d_total [OF f(2) ns n, of c d data] h
  show "\<exists>d' c'. accumulate1d_step a dm lo up p1 pos0_min delta idx (d, c) = Inr (d', c')
      \<and> sum_list c' = sum_list c + 1"
    unfolding run by auto
next
  assume h: "valid_pixel a2 dm2 idx2
      \<and> inside2d lo0 up0 cpos1 dpos1 rng idx2 \<and> bins_cover rng delta0 delta1 m n
      \<and> shaped m n (fst st) \<and> shaped m n (snd st)
      \<and> corrections a2 idx2 (weights a2 ! idx2) = Inr data2"
  obtain pos0_min pos0_maxin pos1_min pos1_maxin where
    rng: "rng = (pos0_min, pos0_maxin, pos1_min, pos1_maxin)"
    by (cases rng) auto
  let ?min0 = "lo0 ! idx2" and ?max0 = "up0 ! idx2"
  let ?min1 = "cpos1 ! idx2 - dpos1 ! idx2" and ?max1 = "cpos1 ! idx2 + dpos1 ! idx2"
  from h have delta: "0 < delta0" "0 < delta1"
    and x: "pos0_min \<le> ?min0" "?min0 \<le> ?max0" "?max0 \<le> pos0_maxin"
      "pos0_maxin < pos0_min + real m * delta0"
    and y: "pos1_min \<le> ?min1" "0 \<le> dpos1 ! idx2" "?max1 \<le> pos1_maxin"
      "pos1_maxin < pos1_min + real n * delta1"
    by (simp_all add: inside2d_def bins_cover_def rng)
  let ?f0min = "(?min0 - pos0_min) / delta0" and ?f0max = "(?max0 - pos0_min) / delta0"
  let ?f1min = "(?min1 - pos1_min) / delta1" and ?f1max = "(?max1 - pos1_min) / delta1"
  have f0: "0 \<le> ?f0min" "?f0min \<le> ?f0max" "?f0max < real m"
    using delta x by (simp_all add: divide_right_mono pos_divide_less_eq)
  have f1: "0 \<le> ?f1min" "?f1min \<le> ?f1max" "?f1max < real n"
    using delta y by (simp_all add: divide_right_mono pos_divide_less_eq)
  have clip: "max pos0_min ?min0 = ?min0" "min pos0_maxin ?max0 = ?max0"
    "max pos1_min ?min1 = ?min1" "min pos1_maxin ?max1 = ?max1"
    using x y by simp_all
  have ns: "\<not> (?max0 < pos0_min \<or> ?max1 < pos1_min \<or> ?min0 > pos0_maxin \<or> ?min1 > pos1_maxin)"
    using x y by auto
  have run: "accumulate2d_step a2 dm2 lo0 up0 cpos1 dpos1 rng delta0 delta1 idx2 st =
      split2d st data2 ?f0min ?f0max ?f1min ?f1max"
    using h delta ns clip
      accumulate2d_step_valid [of a2 dm2 idx2 delta0 delta1 data2 lo0 up0 cpos1 dpos1
        pos0_min pos0_maxin pos1_min pos1_maxin st]
    by (simp add: rng)
  from split2d_total [OF f0 f1, of st data2] h
  show "\<exists>st'. accumulate2d_step a2 dm2 lo0 up0 cpos1 dpos1 rng delta0 delta1 idx2 st = Inr st'
      \<and> total2 (snd st') = total2 (snd st) + 1"
    unfolding run by (auto simp: deposits_def split: sum.splits)
qed

lemma step_conservation_example:
  "valid_pixel split_scenario (False, 0, 0) 0 \<and> \<not> outside_pos1 (False, [], [], 0, 0) 0
   \<and> inside1d [4 / 10] [16 / 10] 0 (calc_upper_bound 2 / 2) (bins split_scenario) 0
   \<and> corrections split_scenario 0 (weights split_scenario ! 0) = Inr 100
   \<and> accumulate1d_step split_scenario (False, 0, 0) [4 / 10] [16 / 10] (False, [], [], 0, 0)
        0 (calc_upper_bound 2 / 2) 0 ([0, 0], [0, 0])
       = Inr ([629145725 / 12582912, 629145475 / 12582912],
              [25165829 / 50331648, 25165819 / 50331648])
   \<and> sum_list [25165829 / 50331648, 25165819 / 50331648 :: real] = sum_list [0, 0 :: real] + 1
   \<and> valid_pixel grid_scenario (True, - 1, 0) 0
   \<and> inside2d [4 / 10, 14 / 10] [16 / 10, 16 / 10] [1, 1] [3 / 10, 1 / 10] (0, 2, 0, 3) 0
   \<and> bins_cover (0, 2, 0, 3) (calc_upper_bound 2 / 2) (calc_upper_bound 3 / 3) 2 3
   \<and> shaped 2 3 (zeros2 2 3)
   \<and> corrections grid_scenario 0 (weights grid_scenario ! 0) = Inr 100
   \<and> (\<exists>st'. accumulate2d_step grid_scenario (True, - 1, 0) [4 / 10, 14 / 10] [16 / 10, 16 / 10]
          [1, 1] [3 / 10, 1 / 10] (0, 2, 0, 3) (calc_upper_bound 2 / 2) (calc_upper_bound 3 / 3)
          0 (zeros2 2 3, zeros2 2 3) = Inr st'
        \<and> total2 (snd st') = total2 (zeros2 2 3) + 1)"
proof -
  have v1: "valid_pixel split_scenario (False, 0, 0) 0" "\<not> outside_pos1 (False, [], [], 0, 0) 0"
    by (simp_all add: valid_pixel_def dummy_excluded_def masked_def outside_pos1_def
        split_scenario_def call1d_def)
  have i1: "inside1d [4 / 10] [16 / 10] 0 (calc_upper_bound 2 / 2) (bins split_scenario) 0"
    by (simp add: inside1d_def calc_upper_bound_def split_scenario_def call1d_def)
  have c1: "corrections split_scenario 0 (weights split_scenario ! 0) = Inr 100"
    by (simp add: corrections_def split_scenario_def call1d_def)
  have l1: "length [0, 0 :: real] = bins split_scenario"
    by (simp add: split_scenario_def call1d_def)
  have s1: "accumulate1d_step split_scenario (False, 0, 0) [4 / 10] [16 / 10] (False, [], [], 0, 0)
        0 (calc_upper_bound 2 / 2) 0 ([0, 0], [0, 0])
       = Inr ([629145725 / 12582912, 629145475 / 12582912],
              [25165829 / 50331648, 25165819 / 50331648])"
    by (simp add: split_scenario_def eval_defs)
  have v2: "valid_pixel grid_scenario (True, - 1, 0) 0"
    by (simp add: valid_pixel_def dummy_excluded_def masked_def grid_scenario_def call2d_def)
  have i2: "inside2d [4 / 10, 14 / 10] [16 / 10, 16 / 10] [1, 1] [3 / 10, 1 / 10] (0, 2, 0, 3) 0"
    "bins_cover (0, 2, 0, 3) (calc_upper_bound 2 / 2) (calc_upper_bound 3 / 3) 2 3"
    by (simp_all add: inside2d_def bins_cover_def calc_upper_bound_def)
  have c2: "corrections grid_scenario 0 (weights grid_scenario ! 0) = Inr 100"
    by (simp add: corrections_def grid_scenario_def call2d_def)
  note t = step_conservation [where a = split_scenario and dm = "(False, 0, 0)" and idx = 0
      and ?p1.0 = "(False, [], [], 0, 0)" and lo = "[4 / 10]" and up = "[16 / 10]"
      and pos0_min = 0 and delta = "calc_upper_bound 2 / 2" and c = "[0, 0]" and d = "[0, 0]"
      and data = 100 and ?a2.0 = grid_scenario and ?dm2.0 = "(True, - 1, 0)" and ?idx2.0 = 0
      and ?lo0.0 = "[4 / 10, 14 / 10]" and ?up0.0 = "[16 / 10, 16 / 10]" and ?cpos1.0 = "[1, 1]"
      and ?dpos1.0 = "[3 / 10, 1 / 10]" and rng = "(0, 2, 0, 3)"
      and ?delta0.0 = "calc_upper_bound 2 / 2" and ?delta1.0 = "calc_upper_bound 3 / 3"
      and m = 2 and n = 3 and st = "(zeros2 2 3, zeros2 2 3)" and ?data2.0 = 100]
  have r1: "sum_list [25165829 / 50331648, 25165819 / 50331648 :: real]
      = sum_list [0, 0 :: real] + 1"
    using t [THEN conjunct1] v1 i1 c1 l1 s1 by auto
  have r2: "\<exists>st'. accumulate2d_step grid_scenario (True, - 1, 0) [4 / 10, 14 / 10]
          [16 / 10, 16 / 10] [1, 1] [3 / 10, 1 / 10] (0, 2, 0, 3) (calc_upper_bound 2 / 2)
          (calc_upper_bound 3 / 3) 0 (zeros2 2 3, zeros2 2 3) = Inr st'
        \<and> total2 (snd st') = total2 (zeros2 2 3) + 1"
    using t [THEN conjunct2] v2 i2 c2 zeros2_shaped [of 2 3] by simp
  show ?thesis using v1 i1 c1 s1 r1 v2 i2 c2 zeros2_shaped [of 2 3] r2 by blast
qed

text \<open>
  Claim C1 at the edge scenario. The one pixel is unmasked, no dummy is configured, and its
  footprint lies fully inside the active range, which on axis 1 is the footprint [-1, 0]
  itself. \<^verbatim>\<open>calc_upper_bound\<close> leaves the maximum 0 where it is, so the single bin of axis 1
  ends at 0, the upper bound of the footprint falls on the fractional bin 1, and
  \<^verbatim>\<open>histoBBox2d\<close> indexes bin 1 of an axis that has the bin 0 only: the call ends in
  \<^verbatim>\<open>IndexError\<close> and the pixel is not accumulated. \<^verbatim>\<open>histoBBox1d\<close> lowers such a last bin to
  \<^verbatim>\<open>bins - 1\<close> (lines 209--212); \<^verbatim>\<open>histoBBox2d\<close> takes the cast as it is (lines 483--486).
\<close>

theorem overlap_conservation_edge:
  "scan2d M_PI edge_scenario [- 1 / 2] [1 / 2]
     = ((1 / 4, 3 / 4, - 1, 0), ([1 / 4], [3 / 4], [- 1], [0]))
   \<and> range2d calc_upper_bound edge_scenario (1 / 4, 3 / 4, - 1, 0)
       = (1 / 4, 3 / 4, calc_upper_bound (3 / 4), - 1, 0, 0)
   \<and> valid_pixel edge_scenario (False, 0, 0) 0
   \<and> inside2d [1 / 4] [3 / 4] [- 1 / 2] [1 / 2] (1 / 4, 3 / 4, - 1, 0) 0
   \<and> histoBBox2d calc_upper_bound M_PI edge_scenario = Inl IndexError
   \<and> clip_bin0_max 1 1 = 0 \<and> to_ssize_t 1 = 1"
proof -
  have 1: "scan2d M_PI edge_scenario [- 1 / 2] [1 / 2]
      = ((1 / 4, 3 / 4, - 1, 0), ([1 / 4], [3 / 4], [- 1], [0]))"
    by (simp add: edge_scenario_def eval_defs)
  have 2: "range2d calc_upper_bound edge_scenario (1 / 4, 3 / 4, - 1, 0)
      = (1 / 4, 3 / 4, calc_upper_bound (3 / 4), - 1, 0, 0)"
    by (simp add: edge_scenario_def range2d_def user_range_def call2d_def calc_upper_bound_def)
  have 3: "valid_pixel edge_scenario (False, 0, 0) 0"
    by (simp add: valid_pixel_def dummy_excluded_def masked_def edge_scenario_def call2d_def)
  have 4: "inside2d [1 / 4] [3 / 4] [- 1 / 2] [1 / 2] (1 / 4, 3 / 4, - 1, 0) 0"
    by (simp add: inside2d_def)
  have 5: "histoBBox2d calc_upper_bound M_PI edge_scenario = Inl IndexError"
    by (simp add: edge_scenario_def eval_defs)
  have 6: "clip_bin0_max 1 1 = 0" "to_ssize_t 1 = 1"
    by (simp_all add: clip_bin0_max_def to_ssize_t_def)
  show ?thesis using 1 2 3 4 5 6 by blast
qed

subsection \<open>No division by zero in the overlap computation\<close>

lemma ebind_no_zdiv:
  assumes "r \<noteq> Inl ZeroDivisionError" and "\<And>t. g t \<noteq> Inl ZeroDivisionError"
  shows "ebind r g \<noteq> Inl ZeroDivisionError"
  using assms by (cases r) (simp_all add: ebind_def)

lemma for_each_no_zdiv:
  assumes "\<And>i t. body i t \<noteq> Inl ZeroDivisionError"
  shows "for_each xs body s \<noteq> Inl ZeroDivisionError"
proof (induction xs arbitrary: s)
  case Nil
  then show ?case by simp
next
  case (Cons i rest)
  then show ?case using assms [of i s] by (cases "body i s") simp_all
qed

lemma add_at2_no_zdiv: "add_at2 arr i j v \<noteq> Inl ZeroDivisionError"
  by (simp add: add_at2_def split: option.splits)

lemma deposit_no_zdiv: "deposit st i j c d \<noteq> Inl ZeroDivisionError"
proof -
  obtain outData outCount where st: "st = (outData, outCount)" by (cases st)
  have "ebind (add_at2 outCount i j c) (\<lambda>outCount.
      ebind (add_at2 outData i j d) (\<lambda>outData. Inr (outData, outCount)))
      \<noteq> Inl ZeroDivisionError"
    by (intro ebind_no_zdiv add_at2_no_zdiv) simp
  then show ?thesis by (simp add: deposit_def st)
qed

lemma to_ssize_t_differ:
  assumes "fmin \<le> fmax" and "to_ssize_t fmin \<noteq> to_ssize_t fmax"
  shows "0 < fmax - fmin"
proof -
  have "fmin \<noteq> fmax" using assms(2) by auto
  then show ?thesis using assms(1) by simp
qed

lemma split2d_no_zdiv:
  assumes "f0min \<le> f0max" and "f1min \<le> f1max"
  shows "split2d st data f0min f0max f1min f1max \<noteq> Inl ZeroDivisionError"
proof -
  have a0: "f0max - f0min \<noteq> 0" if "to_ssize_t f0min \<noteq> to_ssize_t f0max"
    using to_ssize_t_differ [OF assms(1) that] by simp
  have a1: "f1max - f1min \<noteq> 0" if "to_ssize_t f1min \<noteq> to_ssize_t f1max"
    using to_ssize_t_differ [OF assms(2) that] by simp
  show ?thesis
  proof (cases "to_ssize_t f0min = to_ssize_t f0max")
    case same0: True
    show ?thesis
    proof (cases "to_ssize_t f1min = to_ssize_t f1max")
      case True
      then show ?thesis using same0 by (simp add: split2d_def Let_def deposit_no_zdiv)
    next
      case False
      then show ?thesis
        using same0 a1
        by (simp add: split2d_def Let_def fdiv_def)
          (intro ebind_no_zdiv for_each_no_zdiv deposit_no_zdiv)
    qed
  next
    case diff0: False
    show ?thesis
    proof (cases "to_ssize_t f1min = to_ssize_t f1max")
      case True
      then show ?thesis
        using diff0 a0
        by (simp add: split2d_def Let_def fdiv_def)
          (intro ebind_no_zdiv for_each_no_zdiv deposit_no_zdiv)
    next
      case False
      then show ?thesis
        using diff0 a0 a1
        by (simp add: split2d_def Let_def fdiv_def)
          (intro ebind_no_zdiv for_each_no_zdiv deposit_no_zdiv)
    qed
  qed
qed

lemma split1d_returns:
  assumes "bmin = bmax \<or> fmin \<noteq> fmax"
  shows "\<exists>st'. split1d st data fmin fmax bmin bmax = Inr st'"
  using assms by (cases st) (auto simp: split1d_def fdiv_def Let_def)


lemma accumulate1d_step_returns:
  assumes delta: "0 < delta" and fp: "lo ! idx \<le> up ! idx" and n: "0 < bins a"
    and co: "corrections a idx (weights a ! idx) = Inr data"
  shows "\<exists>st'. accumulate1d_step a dm lo up p1 pos0_min delta idx st = Inr st'"
proof (cases "valid_pixel a dm idx \<and> \<not> outside_pos1 p1 idx")
  case False
  then have "accumulate1d_step a dm lo up p1 pos0_min delta idx st = Inr st"
    by (intro accumulate1d_step_skip) auto
  then show ?thesis by simp
next
  case True
  let ?fmin = "(lo ! idx - pos0_min) / delta" and ?fmax = "(up ! idx - pos0_min) / delta"
  note v = accumulate1d_step_valid [OF conjunct1 [OF True] conjunct2 [OF True] delta,
      of lo up pos0_min st]
  show ?thesis
  proof (cases "?fmax < 0 \<or> ?fmin \<ge> real (bins a)")
    case True
    then show ?thesis using v by simp
  next
    case False
    have le: "?fmin \<le> ?fmax" using fp delta by (simp add: divide_right_mono)
    have "clip_bin0_min ?fmin = clip_bin0_max (bins a) ?fmax \<or> ?fmin \<noteq> ?fmax"
      using clip_bins(6) [OF le False n] by auto
    from split1d_returns [OF this, of st data] show ?thesis
      using v False co by simp
  qed
qed

lemma accumulate2d_step_no_zdiv:
  assumes delta: "0 < delta0" "0 < delta1"
    and fp: "lo0 ! idx \<le> up0 ! idx" "0 \<le> dpos1 ! idx"
    and rg: "pos0_min \<le> pos0_maxin" "pos1_min \<le> pos1_maxin"
    and co: "corrections a idx (weights a ! idx) = Inr data"
  shows "accumulate2d_step a dm lo0 up0 cpos1 dpos1 (pos0_min, pos0_maxin, pos1_min, pos1_maxin)
      delta0 delta1 idx st \<noteq> Inl ZeroDivisionError"
proof (cases "valid_pixel a dm idx")
  case False
  then show ?thesis by (simp add: accumulate2d_step_skip)
next
  case True
  let ?min0 = "lo0 ! idx" and ?max0 = "up0 ! idx"
  let ?min1 = "cpos1 ! idx - dpos1 ! idx" and ?max1 = "cpos1 ! idx + dpos1 ! idx"
  note v = accumulate2d_step_valid [OF True delta co, of lo0 up0 cpos1 dpos1
      pos0_min pos0_maxin pos1_min pos1_maxin st]
  show ?thesis
  proof (cases "?max0 < pos0_min \<or> ?max1 < pos1_min \<or> ?min0 > pos0_maxin \<or> ?min1 > pos1_maxin")
    case True
    then show ?thesis using v by simp
  next
    case False
    then have "max pos0_min ?min0 \<le> min pos0_maxin ?max0"
      "max pos1_min ?min1 \<le> min pos1_maxin ?max1"
      using fp rg by auto
    then have "(max pos0_min ?min0 - pos0_min) / delta0 \<le> (min pos0_maxin ?max0 - pos0_min) / delta0"
      "(max pos1_min ?min1 - pos1_min) / delta1 \<le> (min pos1_maxin ?max1 - pos1_min) / delta1"
      using delta by (simp_all add: divide_right_mono)
    from split2d_no_zdiv [OF this, of st data] show ?thesis
      using v False by simp
  qed
qed

text \<open>
  Claim C9. In both splitters, for a well-formed footprint (lower bound at most the upper
  bound, so fractional bin bounds \<open>fmin \<le> fmax\<close> on each axis): a footprint of zero width
  on an axis has the same first and last bin on that axis and takes the single-bin branch
  there; whenever the first and last bin differ, the denominator of
  \<^verbatim>\<open>deltaA = 1.0 / (fbin0_max - fbin0_min)\<close>, and of \<^verbatim>\<open>one_over_area = 1.0 / area_pixel\<close> in
  each of its three forms, is strictly positive; and the splitting code of lines 227--248
  and 483--560, as well as the whole loop body for a pixel with a positive bin width, an
  ordered range and finite corrections, never ends in a division by zero.
\<close>

theorem no_division_by_zero:
  "(fmin \<le> fmax \<and> \<not> (fmax < 0 \<or> fmin \<ge> real nb) \<and> 0 < nb \<longrightarrow>
      (fmin = fmax \<longrightarrow> clip_bin0_min fmin = clip_bin0_max nb fmax)
      \<and> (clip_bin0_min fmin \<noteq> clip_bin0_max nb fmax \<longrightarrow> 0 < fmax - fmin)
      \<and> (\<exists>st'. split1d st1 data1 fmin fmax (clip_bin0_min fmin) (clip_bin0_max nb fmax)
                  = Inr st'))
   \<and> (f0min \<le> f0max \<and> f1min \<le> f1max \<longrightarrow>
      (to_ssize_t f0min \<noteq> to_ssize_t f0max \<longrightarrow> 0 < f0max - f0min)
      \<and> (to_ssize_t f1min \<noteq> to_ssize_t f1max \<longrightarrow> 0 < f1max - f1min)
      \<and> (to_ssize_t f0min \<noteq> to_ssize_t f0max \<and> to_ssize_t f1min \<noteq> to_ssize_t f1max \<longrightarrow>
           0 < (f0max - f0min) * (f1max - f1min))
      \<and> split2d st2 data2 f0min f0max f1min f1max \<noteq> Inl ZeroDivisionError)
   \<and> (0 < delta \<and> lo ! idx \<le> up ! idx \<and> 0 < bins a
        \<and> corrections a idx (weights a ! idx) = Inr data1 \<longrightarrow>
      (\<exists>st'. accumulate1d_step a dm lo up p1 pos0_min delta idx st1 = Inr st'))
   \<and> (0 < delta0 \<and> 0 < delta1 \<and> lo0 ! idx2 \<le> up0 ! idx2 \<and> 0 \<le> dpos1 ! idx2
        \<and> pos0_min2 \<le> pos0_maxin \<and> pos1_min \<le> pos1_maxin
        \<and> corrections a2 idx2 (weights a2 ! idx2) = Inr data2 \<longrightarrow>
      accumulate2d_step a2 dm2 lo0 up0 cpos1 dpos1 (pos0_min2, pos0_maxin, pos1_min, pos1_maxin)
        delta0 delta1 idx2 st2 \<noteq> Inl ZeroDivisionError)"
proof (intro conjI impI)
  assume h: "fmin \<le> fmax \<and> \<not> (fmax < 0 \<or> fmin \<ge> real nb) \<and> 0 < nb"
  then have le: "fmin \<le> fmax" and ns: "\<not> (fmax < 0 \<or> fmin \<ge> real nb)" and n: "0 < nb"
    by simp_all
  note cb = clip_bins [OF le ns n]
  show same: "clip_bin0_min fmin = clip_bin0_max nb fmax" if "fmin = fmax"
    using cb(6) that by auto
  show "0 < fmax - fmin" if "clip_bin0_min fmin \<noteq> clip_bin0_max nb fmax"
    using cb(6) that by simp
  have "clip_bin0_min fmin = clip_bin0_max nb fmax \<or> fmin \<noteq> fmax"
    using same by auto
  from split1d_returns [OF this]
  show "\<exists>st'. split1d st1 data1 fmin fmax (clip_bin0_min fmin) (clip_bin0_max nb fmax) = Inr st'" .
next
  assume h: "f0min \<le> f0max \<and> f1min \<le> f1max"
  show p0: "0 < f0max - f0min" if "to_ssize_t f0min \<noteq> to_ssize_t f0max"
    using to_ssize_t_differ [of f0min f0max] h that by simp
  show p1: "0 < f1max - f1min" if "to_ssize_t f1min \<noteq> to_ssize_t f1max"
    using to_ssize_t_differ [of f1min f1max] h that by simp
  show "0 < (f0max - f0min) * (f1max - f1min)"
    if "to_ssize_t f0min \<noteq> to_ssize_t f0max \<and> to_ssize_t f1min \<noteq> to_ssize_t f1max"
    using p0 p1 that by simp
  show "split2d st2 data2 f0min f0max f1min f1max \<noteq> Inl ZeroDivisionError"
    using h by (intro split2d_no_zdiv) simp_all
next
  assume "0 < delta \<and> lo ! idx \<le> up ! idx \<and> 0 < bins a
      \<and> corrections a idx (weights a ! idx) = Inr data1"
  then show "\<exists>st'. accumulate1d_step a dm lo up p1 pos0_min delta idx st1 = Inr st'"
    by (intro accumulate1d_step_returns) simp_all
next
  assume "0 < delta0 \<and> 0 < delta1 \<and> lo0 ! idx2 \<le> up0 ! idx2 \<and> 0 \<le> dpos1 ! idx2
      \<and> pos0_min2 \<le> pos0_maxin \<and> pos1_min \<le> pos1_maxin
      \<and> corrections a2 idx2 (weights a2 ! idx2) = Inr data2"
  then show "accumulate2d_step a2 dm2 lo0 up0 cpos1 dpos1
      (pos0_min2, pos0_maxin, pos1_min, pos1_maxin) delta0 delta1 idx2 st2
      \<noteq> Inl ZeroDivisionError"
    by (intro accumulate2d_step_no_zdiv) simp_all
qed


theorem no_division_by_zero_witness:
  "(3 / 2 :: real) \<le> 3 / 2 \<and> \<not> ((3 / 2 :: real) < 0 \<or> (3 / 2 :: real) \<ge> real (2 :: nat))
   \<and> clip_bin0_min (3 / 2) = clip_bin0_max 2 (3 / 2)
   \<and> (2 / 5 :: real) \<le> 8 / 5 \<and> \<not> ((8 / 5 :: real) < 0 \<or> (2 / 5 :: real) \<ge> real (2 :: nat))
   \<and> clip_bin0_min (2 / 5) \<noteq> clip_bin0_max 2 (8 / 5)
   \<and> (0 :: real) < 8 / 5 - 2 / 5
   \<and> (\<exists>st'. split1d ([0, 0], [0, 0]) 100 (2 / 5) (8 / 5)
                (clip_bin0_min (2 / 5)) (clip_bin0_max 2 (8 / 5)) = Inr st')
   \<and> (7 / 10 :: real) \<le> 13 / 10
   \<and> to_ssize_t (2 / 5) \<noteq> to_ssize_t (8 / 5) \<and> to_ssize_t (7 / 10) \<noteq> to_ssize_t (13 / 10)
   \<and> (0 :: real) < (8 / 5 - 2 / 5) * (13 / 10 - 7 / 10)
   \<and> split2d (zeros2 2 3, zeros2 2 3) 100 (2 / 5) (8 / 5) (7 / 10) (13 / 10)
       \<noteq> Inl ZeroDivisionError
   \<and> 0 < calc_upper_bound 2 / 2 \<and> 0 < calc_upper_bound 3 / 3
   \<and> 0 < bins split_scenario
   \<and> corrections split_scenario 0 (weights split_scenario ! 0) = Inr 100
   \<and> (\<exists>st'. accumulate1d_step split_scenario (False, 0, 0) [4 / 10] [16 / 10]
          (False, [], [], 0, 0) 0 (calc_upper_bound 2 / 2) 0 ([0, 0], [0, 0]) = Inr st')
   \<and> corrections grid_scenario 0 (weights grid_scenario ! 0) = Inr 100
   \<and> accumulate2d_step grid_scenario (True, - 1, 0) [4 / 10, 14 / 10] [16 / 10, 16 / 10]
        [1, 1] [3 / 10, 1 / 10] (0, 2, 0, 3) (calc_upper_bound 2 / 2) (calc_upper_bound 3 / 3)
        0 (zeros2 2 3, zeros2 2 3) \<noteq> Inl ZeroDivisionError"
proof -
  note z = no_division_by_zero [where fmin = "3 / 2" and fmax = "3 / 2" and nb = 2]
  note t = no_division_by_zero [where fmin = "2 / 5" and fmax = "8 / 5" and nb = 2
      and ?st1.0 = "([0, 0], [0, 0])" and ?data1.0 = 100
      and ?f0min.0 = "2 / 5" and ?f0max.0 = "8 / 5" and ?f1min.0 = "7 / 10"
      and ?f1max.0 = "13 / 10" and ?st2.0 = "(zeros2 2 3, zeros2 2 3)" and ?data2.0 = 100
      and delta = "calc_upper_bound 2 / 2" and lo = "[4 / 10]" and up = "[16 / 10]" and idx = 0
      and a = split_scenario and dm = "(False, 0, 0)" and ?p1.0 = "(False, [], [], 0, 0)"
      and pos0_min = 0 and ?delta0.0 = "calc_upper_bound 2 / 2"
      and ?delta1.0 = "calc_upper_bound 3 / 3" and ?lo0.0 = "[4 / 10, 14 / 10]"
      and ?up0.0 = "[16 / 10, 16 / 10]" and ?idx2.0 = 0 and ?cpos1.0 = "[1, 1]"
      and ?dpos1.0 = "[3 / 10, 1 / 10]" and ?pos0_min2.0 = 0 and pos0_maxin = 2
      and pos1_min = 0 and pos1_maxin = 3 and ?a2.0 = grid_scenario and ?dm2.0 = "(True, - 1, 0)"]
  have b: "clip_bin0_min (2 / 5) \<noteq> clip_bin0_max 2 (8 / 5)"
    "to_ssize_t (2 / 5) \<noteq> to_ssize_t (8 / 5)" "to_ssize_t (7 / 10) \<noteq> to_ssize_t (13 / 10)"
    by (simp_all add: clip_bin0_min_def clip_bin0_max_def to_ssize_t_def)
  have d: "0 < calc_upper_bound 2 / 2" "0 < calc_upper_bound 3 / 3"
    by (simp_all add: calc_upper_bound_def)
  have c: "0 < bins split_scenario"
    "corrections split_scenario 0 (weights split_scenario ! 0) = Inr 100"
    "corrections grid_scenario 0 (weights grid_scenario ! 0) = Inr 100"
    by (simp_all add: corrections_def split_scenario_def grid_scenario_def call1d_def call2d_def)
  have 1: "clip_bin0_min (3 / 2) = clip_bin0_max 2 (3 / 2)"
    using z [THEN conjunct1] by simp
  have 2: "(0 :: real) < 8 / 5 - 2 / 5"
    and 3: "\<exists>st'. split1d ([0, 0], [0, 0]) 100 (2 / 5) (8 / 5)
                (clip_bin0_min (2 / 5)) (clip_bin0_max 2 (8 / 5)) = Inr st'"
    using t [THEN conjunct1] b by simp_all
  have 4: "(0 :: real) < (8 / 5 - 2 / 5) * (13 / 10 - 7 / 10)"
    and 5: "split2d (zeros2 2 3, zeros2 2 3) 100 (2 / 5) (8 / 5) (7 / 10) (13 / 10)
       \<noteq> Inl ZeroDivisionError"
    using t [THEN conjunct2, THEN conjunct1] b by simp_all
  have 6: "\<exists>st'. accumulate1d_step split_scenario (False, 0, 0) [4 / 10] [16 / 10]
          (False, [], [], 0, 0) 0 (calc_upper_bound 2 / 2) 0 ([0, 0], [0, 0]) = Inr st'"
    using t [THEN conjunct2, THEN conjunct2, THEN conjunct1] d c by simp
  have 7: "accumulate2d_step grid_scenario (True, - 1, 0) [4 / 10, 14 / 10] [16 / 10, 16 / 10]
        [1, 1] [3 / 10, 1 / 10] (0, 2, 0, 3) (calc_upper_bound 2 / 2) (calc_upper_bound 3 / 3)
        0 (zeros2 2 3, zeros2 2 3) \<noteq> Inl ZeroDivisionError"
    using t [THEN conjunct2, THEN conjunct2, THEN conjunct2] d c by simp
  show ?thesis using b d c 1 2 3 4 5 6 7 by simp
qed

subsection \<open>The split scenario\<close>

lemma split_scenario_step:
  assumes e: "0 \<le> e" "e \<le> 1"
  shows "accumulate1d_step split_scenario (False, 0, 0) [2 / 5] [8 / 5] (False, [], [], 0, 0)
      0 ((2 + e) / 2) 0 ([0, 0], [0, 0])
    = Inr ([50 + 125 * e / 3, 50 - 125 * e / 3], [1 / 2 + 5 * e / 12, 1 / 2 - 5 * e / 12])"
proof -
  define delta where "delta = (2 + e) / 2"
  define fmin where "fmin = (2 / 5) / delta"
  define fmax where "fmax = (8 / 5) / delta"
  have delta: "1 \<le> delta" "delta \<le> 3 / 2" using e by (simp_all add: delta_def)
  then have dpos: "0 < delta" by simp
  have fmin: "0 \<le> fmin" "fmin < 1"
    using delta dpos by (simp_all add: fmin_def pos_divide_less_eq)
  have fmax: "1 \<le> fmax" "fmax < 2"
    using delta dpos by (simp_all add: fmax_def pos_le_divide_eq pos_divide_less_eq)
  have bmin: "clip_bin0_min fmin = 0"
    using fmin by (simp add: clip_bin0_min_def to_ssize_t_def floor_eq_iff)
  have bmax: "clip_bin0_max 2 fmax = 1"
    using fmax by (simp add: clip_bin0_max_def to_ssize_t_def floor_eq_iff)
  have v: "valid_pixel split_scenario (False, 0, 0) 0" "\<not> outside_pos1 (False, [], [], 0, 0) 0"
    by (simp_all add: valid_pixel_def dummy_excluded_def masked_def outside_pos1_def
        split_scenario_def call1d_def)
  have co: "corrections split_scenario 0 (weights split_scenario ! 0) = Inr 100"
    and bn: "bins split_scenario = 2"
    by (simp_all add: corrections_def split_scenario_def call1d_def)
  have run: "accumulate1d_step split_scenario (False, 0, 0) [2 / 5] [8 / 5] (False, [], [], 0, 0)
      0 delta 0 ([0, 0], [0, 0]) = split1d ([0, 0], [0, 0]) 100 fmin fmax 0 1"
    using accumulate1d_step_valid [OF v dpos, of "[2 / 5]" "[8 / 5]" 0 "([0, 0], [0, 0])"]
      fmin fmax bmin bmax co bn
    by (simp add: fmin_def fmax_def)
  have ne: "fmax - fmin \<noteq> 0" using fmin fmax by simp
  have w: "fmax - fmin = (6 / 5) / delta" by (simp add: fmin_def fmax_def diff_divide_distrib)
  have dA: "1 / (fmax - fmin) = 5 * delta / 6" using dpos by (simp add: w)
  have cL: "5 * delta / 6 * (1 - fmin) = 1 / 2 + 5 * e / 12"
    using dpos by (simp add: fmin_def delta_def field_simps)
  have cR: "5 * delta / 6 * (fmax - 1) = 1 / 2 - 5 * e / 12"
    using dpos by (simp add: fmax_def delta_def field_simps)
  have "split1d ([0, 0], [0, 0]) 100 fmin fmax 0 1
      = Inr ([100 * (5 * delta / 6) * (1 - fmin), 100 * (5 * delta / 6) * (fmax - 1)],
             [5 * delta / 6 * (1 - fmin), 5 * delta / 6 * (fmax - 1)])"
    using ne by (simp add: split1d_def fdiv_def Let_def add_at_def dA)
  also have "\<dots> = Inr ([50 + 125 * e / 3, 50 - 125 * e / 3],
      [1 / 2 + 5 * e / 12, 1 / 2 - 5 * e / 12])"
    using cL cR by (simp add: mult.assoc)
  finally show ?thesis using run by (simp add: delta_def)
qed


lemma split_scenario_merge:
  assumes e: "0 \<le> e" "e \<le> 1"
  shows "merge1d 0 1 [50 + 125 * e / 3, 50 - 125 * e / 3]
      [1 / 2 + 5 * e / 12, 1 / 2 - 5 * e / 12] 2 = Inr [100, 100]"
proof -
  have c: "epsilon < 1 / 2 + 5 * e / 12" "epsilon < 1 / 2 - 5 * e / 12"
    using e by (simp_all add: epsilon_def)
  have q: "(50 + 125 * e / 3) / (1 / 2 + 5 * e / 12) = 100"
    "(50 - 125 * e / 3) / (1 / 2 - 5 * e / 12) = 100"
    using c e by (simp_all add: field_simps epsilon_def)
  have m: "merge_bin epsilon 0 1 (50 + 125 * e / 3) (1 / 2 + 5 * e / 12) = Inr 100"
    "merge_bin epsilon 0 1 (50 - 125 * e / 3) (1 / 2 - 5 * e / 12) = Inr 100"
    using c q e by (simp_all add: merge_bin_def fdiv_def epsilon_def)
  show ?thesis
    by (simp add: merge1d_def upt_rec replicate_unfold m)
qed

text \<open>
  Claim C8. In the split scenario (one pixel of weight 100 at 1.0 with half-width 0.6, two
  bins, range [0, 2], nothing else) \<^verbatim>\<open>histoBBox1d\<close> gives half of the count and half of the
  weight to each bin, up to the rounding of the upper bound: when \<open>calc_upper_bound\<close> moves
  the maximum 2 to \<open>2 + e\<close>, the counts are \<open>1/2 + 5e/12\<close> and \<open>1/2 - 5e/12\<close> and the sums
  100 times that, so they are exactly [0.5, 0.5] and [50, 50] for \<open>e = 0\<close> and within \<open>e\<close>
  and \<open>100 e\<close> of them otherwise.
\<close>

theorem split_scenario_halves:
  assumes "ub 2 = 2 + e" and "0 \<le> e" and "e \<le> 1"
  shows "\<exists>r. histoBBox1d ub split_scenario = Inr r
     \<and> r_outCount r = [1 / 2 + 5 * e / 12, 1 / 2 - 5 * e / 12]
     \<and> r_outData r = [50 + 125 * e / 3, 50 - 125 * e / 3]
     \<and> r_outMerge r = [100, 100]
     \<and> \<bar>r_outCount r ! 0 - 1 / 2\<bar> \<le> e \<and> \<bar>r_outCount r ! 1 - 1 / 2\<bar> \<le> e
     \<and> \<bar>r_outData r ! 0 - 50\<bar> \<le> 100 * e \<and> \<bar>r_outData r ! 1 - 50\<bar> \<le> 100 * e"
proof -
  have sc: "scan1d split_scenario = (2 / 5, 8 / 5, [2 / 5], [8 / 5])"
    by (simp add: split_scenario_def eval_defs)
  have rg: "range1d ub split_scenario (2 / 5) (8 / 5) = (0, 2, 2 + e)"
    using assms(1)
    by (simp add: split_scenario_def call1d_def range1d_def user_range_def py_min_def py_max_def)
  have p1: "pos1_check1d ub split_scenario (Suc 0) = Inr (False, [], [], 0, 0)"
    by (simp add: split_scenario_def call1d_def pos1_check1d_def user_range_def)
  have dm: "dummy1d split_scenario = (False, 0, 0)"
    by (simp add: split_scenario_def call1d_def dummy1d_def)
  have f: "length (weights split_scenario) = Suc 0" "length (pos0 split_scenario) = Suc 0"
    "length (delta_pos0 split_scenario) = Suc 0" "bins split_scenario = 2"
    "mask split_scenario = None" "dark split_scenario = None" "flat split_scenario = None"
    "polarization split_scenario = None" "solidangle split_scenario = None"
    "normalization_factor split_scenario = 1"
    by (simp_all add: split_scenario_def call1d_def)
  have "histoBBox1d ub split_scenario =
      Inr \<lparr>r_edges = linspace (0 + 0.5 * ((2 + e) / 2)) (2 - 0.5 * ((2 + e) / 2)) 2,
           r_outMerge = [100, 100],
           r_outData = [50 + 125 * e / 3, 50 - 125 * e / 3],
           r_outCount = [1 / 2 + 5 * e / 12, 1 / 2 - 5 * e / 12]\<rparr>"
    by (simp add: histoBBox1d_def Let_def f sc rg p1 dm size_ok_def fdiv_def replicate_unfold
        split_scenario_step [OF assms(2,3)] split_scenario_merge [OF assms(2,3)])
  then show ?thesis using assms(2,3) by simp
qed

theorem split_scenario_halves_witness:
  "calc_upper_bound 2 = 2 + 1 / 2 ^ 22 \<and> (0 :: real) \<le> 1 / 2 ^ 22 \<and> (1 :: real) / 2 ^ 22 \<le> 1
   \<and> histoBBox1d calc_upper_bound split_scenario = Inr split_result
   \<and> r_outCount split_result = [1 / 2 + 5 * (1 / 2 ^ 22) / 12, 1 / 2 - 5 * (1 / 2 ^ 22) / 12]
   \<and> r_outData split_result = [50 + 125 * (1 / 2 ^ 22) / 3, 50 - 125 * (1 / 2 ^ 22) / 3]
   \<and> \<bar>r_outCount split_result ! 0 - 1 / 2\<bar> \<le> 1 / 2 ^ 22
   \<and> \<bar>r_outData split_result ! 1 - 50\<bar> \<le> 100 * (1 / 2 ^ 22)
   \<and> (\<exists>r. histoBBox1d (\<lambda>x. x) split_scenario = Inr r
          \<and> r_outCount r = [1 / 2, 1 / 2] \<and> r_outData r = [50, 50])"
proof -
  have u: "calc_upper_bound 2 = 2 + 1 / 2 ^ 22" by (simp add: calc_upper_bound_def)
  have e: "(0 :: real) \<le> 1 / 2 ^ 22" "(1 :: real) / 2 ^ 22 \<le> 1" by simp_all
  from split_scenario_halves [where ub = calc_upper_bound and e = "1 / 2 ^ 22", OF u e]
    split_scenario_result
  have 1: "r_outCount split_result
        = [1 / 2 + 5 * (1 / 2 ^ 22) / 12, 1 / 2 - 5 * (1 / 2 ^ 22) / 12]"
    and 2: "r_outData split_result
        = [50 + 125 * (1 / 2 ^ 22) / 3, 50 - 125 * (1 / 2 ^ 22) / 3]"
    and 3: "\<bar>r_outCount split_result ! 0 - 1 / 2\<bar> \<le> 1 / 2 ^ 22"
    and 4: "\<bar>r_outData split_result ! 1 - 50\<bar> \<le> 100 * (1 / 2 ^ 22)"
    by auto
  have 5: "\<exists>r. histoBBox1d (\<lambda>x. x) split_scenario = Inr r
      \<and> r_outCount r = [1 / 2, 1 / 2] \<and> r_outData r = [50, 50]"
  proof -
    have "\<exists>r. histoBBox1d (\<lambda>x. x) split_scenario = Inr r
        \<and> r_outCount r = [1 / 2 + 5 * 0 / 12, 1 / 2 - 5 * 0 / 12]
        \<and> r_outData r = [50 + 125 * 0 / 3, 50 - 125 * 0 / 3]
        \<and> r_outMerge r = [100, 100]
        \<and> \<bar>r_outCount r ! 0 - 1 / 2\<bar> \<le> 0 \<and> \<bar>r_outCount r ! 1 - 1 / 2\<bar> \<le> 0
        \<and> \<bar>r_outData r ! 0 - 50\<bar> \<le> 100 * 0 \<and> \<bar>r_outData r ! 1 - 50\<bar> \<le> 100 * 0"
      by (rule split_scenario_halves [where ub = "\<lambda>x. x" and e = 0]) simp_all
    then obtain r where "histoBBox1d (\<lambda>x. x) split_scenario = Inr r"
      "r_outCount r = [1 / 2 + 5 * 0 / 12, 1 / 2 - 5 * 0 / 12]"
      "r_outData r = [50 + 125 * 0 / 3, 50 - 125 * 0 / 3]"
      by blast
    then show ?thesis by simp
  qed
  show ?thesis using u e split_scenario_result 1 2 3 4 5 by blast
qed

subsection \<open>histoBBox2d returns\<close>















end
